theory Spec2Isabelle
  imports Main "HOL-Library.Word" "HOL-Library.Multiset" "HOL-Library.List_Lexorder"
    "HOL-Library.Char_ord"
begin

section \<open>The OC history report: data model\<close>

text \<open>
  The program fetches a faction roster and the history of completed organized crimes,
  folds the history into a three-level index (member, difficulty, position) holding the most
  recently executed checkpoint pass rate, and renders the index as report lines.

  The Go structs are records with the field names of the source. Go's \<open>int\<close> and
  \<open>int64\<close> values of these structs are only stored, compared and printed, never
  added, so they are HOL integers; the page offset of the history fetcher, which is
  incremented, is a 64-bit word. A string is the list of its characters: it is
  compared lexicographically by character code, as Go compares strings, and the width of
  a field of \<open>fmt\<close> counts characters. A character of HOL has eight bits, so the
  names and labels represented are those whose characters fit.
\<close>

record LastAction =
  Status :: string
  Timestamp :: int
  Relative :: string

record Member =
  ID :: int
  Name :: string
  IsInOC :: bool
  LastAction :: LastAction

record SlotUser =
  ID :: int
  Outcome :: string

record Slot =
  Position :: string
  User :: SlotUser
  CheckpointPassRate :: int

record Crime =
  ID :: int
  Name :: string
  Difficulty :: int
  ExecutedAt :: int
  Slots :: "Slot list"

text \<open>The most recent checkpoint pass rate of a member at a difficulty and position.\<close>

record RateInfo =
  Rate :: int
  ExecutedAt :: int

text \<open>Key hierarchy: member id, then difficulty, then position.\<close>

type_synonym MemberStats = "int \<rightharpoonup> (int \<rightharpoonup> (string \<rightharpoonup> RateInfo))"

section \<open>The statistics reducer\<close>

text \<open>The value of \<open>RateInfo{}\<close>, stored when a position is first seen.\<close>

definition zeroRateInfo :: RateInfo where
  "zeroRateInfo = \<lparr>Rate = 0, RateInfo.ExecutedAt = 0\<rparr>"

text \<open>
  The body of the inner loop of \<open>runReports\<close>: the three levels are created when
  missing, the stored entry is read, and it is overwritten when the crime was executed
  strictly later.
\<close>

definition recordSlot :: "Crime \<Rightarrow> MemberStats \<Rightarrow> Slot \<Rightarrow> MemberStats" where
  "recordSlot crime statsAll slot =
     (let uid = SlotUser.ID (User slot);
          byDifficulty = (case statsAll uid of None \<Rightarrow> Map.empty | Some m \<Rightarrow> m);
          byPosition = (case byDifficulty (Difficulty crime) of None \<Rightarrow> Map.empty | Some m \<Rightarrow> m);
          st = (case byPosition (Position slot) of None \<Rightarrow> zeroRateInfo | Some r \<Rightarrow> r);
          st' = (if Crime.ExecutedAt crime > RateInfo.ExecutedAt st
                 then st\<lparr>Rate := CheckpointPassRate slot,
                         RateInfo.ExecutedAt := Crime.ExecutedAt crime\<rparr>
                 else st)
      in statsAll(uid \<mapsto> byDifficulty(Difficulty crime \<mapsto> byPosition(Position slot \<mapsto> st'))))"

text \<open>The loop over the slots of one crime, and the loop over the crimes.\<close>

definition reduceCrime :: "MemberStats \<Rightarrow> Crime \<Rightarrow> MemberStats" where
  "reduceCrime statsAll crime = foldl (recordSlot crime) statsAll (Slots crime)"

definition reduceAll :: "Crime list \<Rightarrow> MemberStats" where
  "reduceAll crimes = foldl reduceCrime Map.empty crimes"

text \<open>
  The earlier single-report \<open>main\<close> runs the same loop but skips the slots whose user
  is not a key of the selection.
\<close>

definition recordSlotSelected ::
  "(int \<rightharpoonup> Member) \<Rightarrow> Crime \<Rightarrow> MemberStats \<Rightarrow> Slot \<Rightarrow> MemberStats" where
  "recordSlotSelected selected crime stats slot =
     (if selected (SlotUser.ID (User slot)) = None then stats
      else recordSlot crime stats slot)"

definition reduceCrimeSelected :: "(int \<rightharpoonup> Member) \<Rightarrow> MemberStats \<Rightarrow> Crime \<Rightarrow> MemberStats" where
  "reduceCrimeSelected selected stats crime =
     foldl (recordSlotSelected selected crime) stats (Slots crime)"

definition reduceSelected :: "(int \<rightharpoonup> Member) \<Rightarrow> Crime list \<Rightarrow> MemberStats" where
  "reduceSelected selected crimes = foldl (reduceCrimeSelected selected) Map.empty crimes"

subsection \<open>Reading the index\<close>

text \<open>The entry stored for a triple, \<open>None\<close> when a level is missing.\<close>

definition entryAt :: "MemberStats \<Rightarrow> int \<Rightarrow> int \<Rightarrow> string \<Rightarrow> RateInfo option" where
  "entryAt stats uid d p =
     (case stats uid of None \<Rightarrow> None
      | Some byDifficulty \<Rightarrow>
          (case byDifficulty d of None \<Rightarrow> None | Some byPosition \<Rightarrow> byPosition p))"

text \<open>
  The first slot of a crime that the loop files under a triple; a crime contributes to
  the triple when it has one.
\<close>

definition firstSlot :: "int \<Rightarrow> int \<Rightarrow> string \<Rightarrow> Crime \<Rightarrow> Slot option" where
  "firstSlot uid d p crime =
     (if Difficulty crime = d
      then find (\<lambda>s. SlotUser.ID (User s) = uid \<and> Position s = p) (Slots crime)
      else None)"

definition contributes :: "int \<Rightarrow> int \<Rightarrow> string \<Rightarrow> Crime \<Rightarrow> bool" where
  "contributes uid d p crime = (firstSlot uid d p crime \<noteq> None)"

text \<open>The effect of one slot, and of one whole crime, on the entry of a fixed triple.\<close>

definition bump :: "RateInfo option \<Rightarrow> int \<Rightarrow> int \<Rightarrow> RateInfo" where
  "bump eo t r =
     (let st = (case eo of None \<Rightarrow> zeroRateInfo | Some e \<Rightarrow> e)
      in if t > RateInfo.ExecutedAt st then \<lparr>Rate = r, RateInfo.ExecutedAt = t\<rparr> else st)"

definition perCrime :: "int \<Rightarrow> int \<Rightarrow> string \<Rightarrow> Crime \<Rightarrow> RateInfo option \<Rightarrow> RateInfo option" where
  "perCrime uid d p crime eo =
     (case firstSlot uid d p crime of None \<Rightarrow> eo
      | Some s \<Rightarrow> Some (bump eo (Crime.ExecutedAt crime) (CheckpointPassRate s)))"

text \<open>No level of the index built by the loop is an empty map.\<close>

definition wfStats :: "MemberStats \<Rightarrow> bool" where
  "wfStats stats \<longleftrightarrow>
     (\<forall>uid byD. stats uid = Some byD \<longrightarrow>
        (\<exists>d. byD d \<noteq> None) \<and> (\<forall>d byP. byD d = Some byP \<longrightarrow> (\<exists>p. byP p \<noteq> None)))"

text \<open>The first crime of the list that contributes to the triple with a given time.\<close>

definition latestAt :: "int \<Rightarrow> int \<Rightarrow> string \<Rightarrow> int \<Rightarrow> Crime list \<Rightarrow> Crime option" where
  "latestAt uid d p t crimes =
     find (\<lambda>c. contributes uid d p c \<and> Crime.ExecutedAt c = t) crimes"

text \<open>What the loop has stored for a triple once the crimes are consumed.\<close>

definition storedFor :: "int \<Rightarrow> int \<Rightarrow> string \<Rightarrow> Crime list \<Rightarrow> RateInfo \<Rightarrow> bool" where
  "storedFor uid d p crimes e \<longleftrightarrow>
     (\<forall>c\<in>set crimes. contributes uid d p c \<longrightarrow> Crime.ExecutedAt c \<le> RateInfo.ExecutedAt e) \<and>
     (if 0 < RateInfo.ExecutedAt e
      then (\<exists>c s. latestAt uid d p (RateInfo.ExecutedAt e) crimes = Some c \<and>
                  firstSlot uid d p c = Some s \<and> Rate e = CheckpointPassRate s)
      else e = zeroRateInfo)"

subsection \<open>Sample records\<close>

definition exampleSlot :: "int \<Rightarrow> string \<Rightarrow> int \<Rightarrow> Slot" where
  "exampleSlot uid pos rate =
     \<lparr>Position = pos, User = \<lparr>SlotUser.ID = uid, Outcome = ''Successful''\<rparr>,
      CheckpointPassRate = rate\<rparr>"

definition exampleCrime :: "int \<Rightarrow> int \<Rightarrow> int \<Rightarrow> Slot list \<Rightarrow> Crime" where
  "exampleCrime cid d t slots =
     \<lparr>Crime.ID = cid, Crime.Name = ''Heist'', Difficulty = d, Crime.ExecutedAt = t,
      Slots = slots\<rparr>"

definition exA :: Crime where "exA = exampleCrime 1 3 100 [exampleSlot 7 ''Muscle'' 40]"
definition exB :: Crime where "exB = exampleCrime 2 3 200 [exampleSlot 7 ''Muscle'' 70]"
definition exO :: Crime where "exO = exampleCrime 3 3 150 [exampleSlot 8 ''Muscle'' 55]"
definition exTie :: Crime where "exTie = exampleCrime 4 3 200 [exampleSlot 7 ''Muscle'' 10]"

section \<open>The crime history fetcher\<close>

text \<open>
  The errors the program handles: a failed \<open>http.Get\<close>, a response whose status is
  not 200 (with its status and body), a body that does not decode, and a failure of the
  sheets client.
\<close>

datatype goError = TransportError | RemoteError string string | DecodeError | SinkError string

text \<open>
  The remote side of \<open>fetchAllCrimes\<close>: what the \<open>n\<close>-th request, made at a
  given offset, answers. The offset is a Go \<open>int\<close> that the loop increments, hence
  a 64-bit word.
\<close>

type_synonym historySource = "nat \<Rightarrow> 64 word \<Rightarrow> goError + Crime list"

definition pageSize :: nat where "pageSize = 100"

text \<open>
  The \<open>for\<close> loop of \<open>fetchAllCrimes\<close>, with the offsets requested so far. The
  loop has no bound: against a source that never sends an error or a short page it does
  not return, and the value is \<open>None\<close>.
\<close>

partial_function (option) fetchLoop ::
  "historySource \<Rightarrow> nat \<Rightarrow> 64 word \<Rightarrow> Crime list \<Rightarrow> 64 word list
     \<Rightarrow> (64 word list \<times> (goError + Crime list)) option" where
  "fetchLoop get n offset all reqs =
     (case get n offset of
        Inl err \<Rightarrow> Some (reqs @ [offset], Inl err)
      | Inr page \<Rightarrow>
          (let all' = all @ page in
           if length page < pageSize then Some (reqs @ [offset], Inr all')
           else fetchLoop get (Suc n) (offset + of_nat pageSize) all' (reqs @ [offset])))"

definition fetchAllCrimes :: "historySource \<Rightarrow> (64 word list \<times> (goError + Crime list)) option" where
  "fetchAllCrimes get = fetchLoop get 0 0 [] []"

text \<open>A source that serves a fixed list of pages, and pages of given sizes.\<close>

definition pagedSource :: "Crime list list \<Rightarrow> historySource" where
  "pagedSource pages n offset = (if n < length pages then Inr (pages ! n) else Inl TransportError)"

definition examplePages :: "nat list \<Rightarrow> Crime list list" where
  "examplePages sizes = map (\<lambda>k. replicate k exO) sizes"

section \<open>The report renderer\<close>

text \<open>
  \<open>generateReportLines\<close> uses the clock, the time formatter, \<open>strings.ToLower\<close>,
  the order in which \<open>range\<close> visits the keys of the selection, and \<open>sort.Slice\<close>.
  None of them is code of this program, and the last two are left open by the language:
  they are the fields of a record that the renderer takes as an argument.
\<close>

text \<open>The local struct of \<open>generateReportLines\<close> that is sorted: a key and its name.\<close>

record memberEntry =
  ID :: int
  Name :: string

text \<open>
  \<open>now\<close> is \<open>time.Now().Format(time.RFC3339)\<close>, \<open>formatUnix t\<close> is
  \<open>time.Unix(t, 0).Format(time.RFC3339)\<close>, \<open>rangeKeys\<close> lists the keys of the
  selection in the order in which the \<open>range\<close> loop visits them, and
  \<open>sortSlice less xs\<close> is the slice \<open>xs\<close> after \<open>sort.Slice\<close> with the
  comparison \<open>less\<close>.
\<close>

record runtime =
  now :: string
  formatUnix :: "int \<Rightarrow> string"
  toLower :: "string \<Rightarrow> string"
  rangeKeys :: "int list"
  sortSlice :: "(memberEntry \<Rightarrow> memberEntry \<Rightarrow> bool) \<Rightarrow> memberEntry list \<Rightarrow> memberEntry list"

text \<open>
  The verbs of \<open>fmt.Sprintf\<close> that the renderer uses: \<open>%d\<close> (decimal, with a
  minus sign), \<open>%3d\<close> (padded with spaces on the left to three characters) and
  \<open>%-15s\<close> (padded with spaces on the right to fifteen characters, never cut).
\<close>

definition digits :: string where "digits = ''0123456789''"

fun showNat :: "nat \<Rightarrow> string" where
  "showNat n = (if n < 10 then [digits ! n] else showNat (n div 10) @ [digits ! (n mod 10)])"

declare showNat.simps [simp del]

definition showInt :: "int \<Rightarrow> string" where
  "showInt i = (if i < 0 then CHR ''-'' # showNat (nat (- i)) else showNat (nat i))"

definition padLeft :: "nat \<Rightarrow> string \<Rightarrow> string" where
  "padLeft w s = replicate (w - length s) CHR '' '' @ s"

definition padRight :: "nat \<Rightarrow> string \<Rightarrow> string" where
  "padRight w s = s @ replicate (w - length s) CHR '' ''"

text \<open>Indexing a Go map at a missing key gives the zero value of the struct.\<close>

definition zeroMember :: Member where
  "zeroMember = \<lparr>Member.ID = 0, Member.Name = '''', IsInOC = False,
                  LastAction = \<lparr>Status = '''', Timestamp = 0, Relative = ''''\<rparr>\<rparr>"

text \<open>The lines of one member block, innermost first.\<close>

definition summaryLine :: "Member \<Rightarrow> string" where
  "summaryLine m =
     ''Member: '' @ Member.Name m @ '' ('' @ showInt (Member.ID m) @ '') - Last seen: ''
       @ Status (LastAction m) @ '' ('' @ Relative (LastAction m) @ '')''"

definition positionLine :: "runtime \<Rightarrow> string \<Rightarrow> RateInfo \<Rightarrow> string" where
  "positionLine rt p st =
     (if Rate st = 0 then ''    '' @ padRight 15 p @ '' '' @ ''-''
      else ''    '' @ padRight 15 p @ '' '' @ padLeft 3 (showInt (Rate st)) @ ''% (executed_at ''
             @ formatUnix rt (RateInfo.ExecutedAt st) @ '')'')"

definition difficultyLines :: "runtime \<Rightarrow> int \<Rightarrow> (string \<rightharpoonup> RateInfo) \<Rightarrow> string list" where
  "difficultyLines rt d positions =
     (''  Difficulty '' @ showInt d @ '':'') #
     map (\<lambda>p. positionLine rt p (case positions p of None \<Rightarrow> zeroRateInfo | Some st \<Rightarrow> st))
       (sorted_list_of_set (dom positions))"

definition lookupMember :: "(int \<rightharpoonup> Member) \<Rightarrow> int \<Rightarrow> Member" where
  "lookupMember selected uid = (case selected uid of None \<Rightarrow> zeroMember | Some m \<Rightarrow> m)"

definition memberLines :: "runtime \<Rightarrow> (int \<rightharpoonup> Member) \<Rightarrow> MemberStats \<Rightarrow> memberEntry \<Rightarrow> string list" where
  "memberLines rt selected stats entry =
     (let m = lookupMember selected (memberEntry.ID entry)
      in [''''] @ [summaryLine m] @
         (case stats (memberEntry.ID entry) of
            None \<Rightarrow> [''  No historical OC participation recorded.'']
          | Some memberStats \<Rightarrow>
              concat (map (\<lambda>d. difficultyLines rt d
                                  (case memberStats d of None \<Rightarrow> Map.empty | Some ps \<Rightarrow> ps))
                        (sorted_list_of_set (dom memberStats)))))"

text \<open>
  The first loop of \<open>generateReportLines\<close>: one entry per key visited. Only keys of
  the map are visited by \<open>range\<close>, so a key of \<open>rangeKeys\<close> that is not in the
  map yields nothing.
\<close>

fun collectEntries :: "(int \<rightharpoonup> Member) \<Rightarrow> int list \<Rightarrow> memberEntry list" where
  "collectEntries selected [] = []"
| "collectEntries selected (k # ks) =
     (case selected k of
        None \<Rightarrow> collectEntries selected ks
      | Some m \<Rightarrow> \<lparr>memberEntry.ID = k, memberEntry.Name = Member.Name m\<rparr>
                  # collectEntries selected ks)"

definition memberEntries :: "runtime \<Rightarrow> (int \<rightharpoonup> Member) \<Rightarrow> memberEntry list" where
  "memberEntries rt selected = collectEntries selected (rangeKeys rt)"

text \<open>The comparison handed to \<open>sort.Slice\<close>, and the entries once sorted.\<close>

definition lessByName :: "runtime \<Rightarrow> memberEntry \<Rightarrow> memberEntry \<Rightarrow> bool" where
  "lessByName rt a b \<longleftrightarrow> toLower rt (memberEntry.Name a) < toLower rt (memberEntry.Name b)"

definition renderOrder :: "runtime \<Rightarrow> (int \<rightharpoonup> Member) \<Rightarrow> memberEntry list" where
  "renderOrder rt selected = sortSlice rt (lessByName rt) (memberEntries rt selected)"

text \<open>The header, then the block of each entry in the sorted order.\<close>

definition generateReportLines :: "runtime \<Rightarrow> (int \<rightharpoonup> Member) \<Rightarrow> MemberStats \<Rightarrow> string list" where
  "generateReportLines rt selected stats =
     (''Report generated at: '' @ now rt) #
     concat (map (memberLines rt selected stats) (renderOrder rt selected))"

text \<open>
  The earlier \<open>printReport\<close> of \<open>src/main.go\<close> prints the same member blocks
  without a header (a line break, then the member line, then the statistics), but hands
  \<open>sort.Slice\<close> the comparison of the names as they are. Its output is given as the
  list of lines printed, and the suffix tells it from the \<open>printReport\<close> of the later
  program.
\<close>

definition lessByRawName :: "memberEntry \<Rightarrow> memberEntry \<Rightarrow> bool" where
  "lessByRawName a b \<longleftrightarrow> memberEntry.Name a < memberEntry.Name b"

definition printOrder_main :: "runtime \<Rightarrow> (int \<rightharpoonup> Member) \<Rightarrow> memberEntry list" where
  "printOrder_main rt selected = sortSlice rt lessByRawName (memberEntries rt selected)"

definition printReport_main :: "runtime \<Rightarrow> (int \<rightharpoonup> Member) \<Rightarrow> MemberStats \<Rightarrow> string list" where
  "printReport_main rt selected stats =
     concat (map (memberLines rt selected stats) (printOrder_main rt selected))"

text \<open>The members whose blocks are rendered, in the order of the given entries.\<close>

definition membersOf :: "(int \<rightharpoonup> Member) \<Rightarrow> memberEntry list \<Rightarrow> Member list" where
  "membersOf selected entries = map (\<lambda>e. lookupMember selected (memberEntry.ID e)) entries"

text \<open>The member summary lines are the lines that start with \<open>Member: \<close>.\<close>

definition isMemberLine :: "string \<Rightarrow> bool" where
  "isMemberLine line \<longleftrightarrow> take 8 line = ''Member: ''"

text \<open>One row of one cell per line.\<close>

definition buildSheetRows :: "runtime \<Rightarrow> (int \<rightharpoonup> Member) \<Rightarrow> MemberStats \<Rightarrow> string list list" where
  "buildSheetRows rt selected stats = map (\<lambda>line. [line]) (generateReportLines rt selected stats)"

text \<open>
  The two selections that \<open>runReports\<close> builds from the roster. A later member
  with the same id replaces an earlier one, as the assignment to the map does.
\<close>

definition selectAll :: "Member list \<Rightarrow> (int \<rightharpoonup> Member)" where
  "selectAll members = foldl (\<lambda>sel m. sel(Member.ID m \<mapsto> m)) Map.empty members"

definition selectNoOC :: "Member list \<Rightarrow> (int \<rightharpoonup> Member)" where
  "selectNoOC members =
     foldl (\<lambda>sel m. if \<not> IsInOC m then sel(Member.ID m \<mapsto> m) else sel) Map.empty members"

text \<open>Two indexes that hold the same statistics for every selected member.\<close>

definition agreeOn :: "(int \<rightharpoonup> Member) \<Rightarrow> MemberStats \<Rightarrow> MemberStats \<Rightarrow> bool" where
  "agreeOn selected A B \<longleftrightarrow> (\<forall>uid. selected uid \<noteq> None \<longrightarrow> A uid = B uid)"

subsection \<open>A sample runtime and sample rosters\<close>

text \<open>
  A runtime to run the renderer on: a fixed clock, seconds printed as they are, lower case
  for the letters A to Z, the given order of keys, and an insertion sort that moves an
  entry to the left only past entries greater than it.
\<close>

fun insertionStep :: "('a \<Rightarrow> 'a \<Rightarrow> bool) \<Rightarrow> 'a \<Rightarrow> 'a list \<Rightarrow> 'a list" where
  "insertionStep lt x [] = [x]"
| "insertionStep lt x (y # ys) = (if lt x y then x # y # ys else y # insertionStep lt x ys)"

definition insertionSort :: "('a \<Rightarrow> 'a \<Rightarrow> bool) \<Rightarrow> 'a list \<Rightarrow> 'a list" where
  "insertionSort lt xs = foldl (\<lambda>acc x. insertionStep lt x acc) [] xs"

definition asciiLower :: "char \<Rightarrow> char" where
  "asciiLower c =
     (case map_of (zip ''ABCDEFGHIJKLMNOPQRSTUVWXYZ'' ''abcdefghijklmnopqrstuvwxyz'') c of
        None \<Rightarrow> c | Some l \<Rightarrow> l)"

definition exampleRuntime :: "int list \<Rightarrow> runtime" where
  "exampleRuntime keys =
     \<lparr>now = ''2025-06-01T12:00:00Z'',
      formatUnix = (\<lambda>t. ''unix:'' @ showInt t),
      toLower = map asciiLower,
      rangeKeys = keys,
      sortSlice = insertionSort\<rparr>"

definition exampleMember :: "int \<Rightarrow> string \<Rightarrow> bool \<Rightarrow> Member" where
  "exampleMember uid name inOC =
     \<lparr>Member.ID = uid, Member.Name = name, IsInOC = inOC,
      LastAction = \<lparr>Status = ''Online'', Timestamp = 1748779200, Relative = ''2 minutes ago''\<rparr>\<rparr>"

definition exRoster :: "Member list" where
  "exRoster = [exampleMember 1 ''bob'' False, exampleMember 2 ''Bob'' True,
               exampleMember 3 ''alice'' False]"

definition exZed :: "Member list" where
  "exZed = [exampleMember 7 ''Zed'' False]"

definition exStats :: MemberStats where
  "exStats = reduceAll [exA, exB, exampleCrime 9 3 0 [exampleSlot 7 ''Driver'' 50]]"

section \<open>One pass, and the scheduler\<close>

text \<open>
  The flags read by \<open>runReports\<close>. The interval is a duration; only its sign is used.
\<close>

record config =
  outputDest :: string
  allFlag :: bool
  bothFlag :: bool
  nocRange :: string
  allRange :: string
  interval :: int

text \<open>
  What a pass does to the outside, in order: the request for the roster, each request for
  a page of the history (with its offset), a line on standard output, an error or an
  information entry of the log, a call of the sheets client, and the end of the process.
\<close>

datatype event =
    FetchMembers
  | FetchCrimes "64 word"
  | Println string
  | LogError string goError
  | LogInfo string nat
  | ClearRange string string
  | UpdateRange string string "string list list"
  | Fatal string

datatype outcome = Returned | Exited

text \<open>
  What the outside answers during one pass: the outcome of \<open>fetchMembers\<close>, the
  history source, the result of \<open>getRequiredEnv("SPREADSHEET_ID")\<close>, the error of
  the \<open>k\<close>-th \<open>ClearRange\<close> and of the \<open>k\<close>-th \<open>UpdateRange\<close>
  call of the pass, and the runtime seen by the first and by the second call of
  \<open>generateReportLines\<close>. The environment helper and the sheets client are not
  part of the program text at hand, so their results are taken as given; \<open>None\<close>
  for the spreadsheet id stands for the helper ending the process, which \<open>Fatal\<close>
  records with the name of the variable.
\<close>

record passEnv =
  membersResponse :: "goError + Member list"
  crimesSource :: historySource
  spreadsheetID :: "string option"
  clearResult :: "nat \<Rightarrow> goError option"
  updateResult :: "nat \<Rightarrow> goError option"
  render1 :: runtime
  render2 :: runtime

text \<open>
  \<open>printReport\<close> prints the lines. The clear-then-write sequence appears three times
  in \<open>runReports\<close> with different log messages; it is written once here: the range is
  cleared, a failure is logged, then the rows are written whatever the clear returned, and
  a failure or the number of rows is logged.
\<close>

definition printReport :: "runtime \<Rightarrow> (int \<rightharpoonup> Member) \<Rightarrow> MemberStats \<Rightarrow> event list" where
  "printReport rt selected stats = map Println (generateReportLines rt selected stats)"

definition writeSheet ::
  "passEnv \<Rightarrow> nat \<Rightarrow> string \<Rightarrow> string \<Rightarrow> string list list
     \<Rightarrow> string \<Rightarrow> string \<Rightarrow> string \<Rightarrow> event list" where
  "writeSheet env k sid rng rows clearMsg writeMsg infoMsg =
     ClearRange sid rng #
     (case clearResult env k of Some err \<Rightarrow> [LogError clearMsg err] | None \<Rightarrow> []) @
     UpdateRange sid rng rows #
     (case updateResult env k of
        Some err \<Rightarrow> [LogError writeMsg err]
      | None \<Rightarrow> [LogInfo infoMsg (length rows)])"

text \<open>The part of \<open>runReports\<close> after the reduction: one or two reports, printed or written.\<close>

definition emitReports ::
  "config \<Rightarrow> passEnv \<Rightarrow> (int \<rightharpoonup> Member) \<Rightarrow> (int \<rightharpoonup> Member) \<Rightarrow> (int \<rightharpoonup> Member)
     \<Rightarrow> MemberStats \<Rightarrow> event list \<times> outcome" where
  "emitReports cfg env selected selectedAll selectedNoOC statsAll =
     (if bothFlag cfg then
        (if outputDest cfg = ''stdout'' then
           (Println ''=== Members not in OC ==='' # printReport (render1 env) selectedNoOC statsAll @
            Println (CHR 0x0A # ''=== All Members ==='') # printReport (render2 env) selectedAll statsAll,
            Returned)
         else
           (case spreadsheetID env of
              None \<Rightarrow> ([Fatal ''SPREADSHEET_ID''], Exited)
            | Some sid \<Rightarrow>
                (let rowsNoOC = buildSheetRows (render1 env) selectedNoOC statsAll;
                     rowsAll = buildSheetRows (render2 env) selectedAll statsAll
                 in (writeSheet env 0 sid (nocRange cfg) rowsNoOC ''clear not-in-OC sheet''
                       ''write not-in-OC sheet'' ''Wrote NOT_IN_OC report to Google Sheet'' @
                     writeSheet env 1 sid (allRange cfg) rowsAll ''clear ALL sheet''
                       ''write ALL sheet'' ''Wrote ALL report to Google Sheet'',
                     Returned))))
      else
        (if outputDest cfg = ''stdout'' then (printReport (render1 env) selected statsAll, Returned)
         else
           (case spreadsheetID env of
              None \<Rightarrow> ([Fatal ''SPREADSHEET_ID''], Exited)
            | Some sid \<Rightarrow>
                (let rows = buildSheetRows (render1 env) selected statsAll;
                     targetRange = (if allFlag cfg then allRange cfg else nocRange cfg)
                 in (writeSheet env 0 sid targetRange rows ''clear sheet'' ''write sheet''
                       ''Wrote report to Google Sheet'',
                     Returned)))))"

text \<open>
  The selection tested for emptiness and rendered in single mode, and \<open>runReports\<close>
  itself. A pass that does not return because the history fetch never ends is \<open>None\<close>.
\<close>

definition passSelection :: "config \<Rightarrow> Member list \<Rightarrow> (int \<rightharpoonup> Member)" where
  "passSelection cfg members =
     (if bothFlag cfg then selectNoOC members
      else if allFlag cfg then selectAll members else selectNoOC members)"

definition runReports :: "config \<Rightarrow> passEnv \<Rightarrow> (event list \<times> outcome) option" where
  "runReports cfg env =
     (case membersResponse env of
        Inl err \<Rightarrow> Some ([FetchMembers, LogError ''fetch members'' err], Returned)
      | Inr members \<Rightarrow>
          (let selectedAll = selectAll members;
               selectedNoOC = selectNoOC members;
               selected = passSelection cfg members
           in if dom selected = {} \<and> \<not> bothFlag cfg
              then Some ([FetchMembers, Println ''No matching faction members found.''], Returned)
              else
                (case fetchAllCrimes (crimesSource env) of
                   None \<Rightarrow> None
                 | Some (offsets, Inl err) \<Rightarrow>
                     Some (FetchMembers # map FetchCrimes offsets @ [LogError ''fetch crimes'' err],
                           Returned)
                 | Some (offsets, Inr crimes) \<Rightarrow>
                     (case emitReports cfg env selected selectedAll selectedNoOC (reduceAll crimes) of
                        (evs, out) \<Rightarrow> Some (FetchMembers # map FetchCrimes offsets @ evs, out)))))"

text \<open>
  The end of \<open>main\<close>: the first run, then one run per tick when the interval is
  positive. The ticker never stops; \<open>ticks\<close> holds the environments of the ticks
  observed. The value is the list of the traces of the passes run.
\<close>

fun runPasses :: "config \<Rightarrow> passEnv list \<Rightarrow> (event list list \<times> outcome) option" where
  "runPasses cfg [] = Some ([], Returned)"
| "runPasses cfg (env # envs) =
     (case runReports cfg env of
        None \<Rightarrow> None
      | Some (evs, Exited) \<Rightarrow> Some ([evs], Exited)
      | Some (evs, Returned) \<Rightarrow>
          (case runPasses cfg envs of
             None \<Rightarrow> None
           | Some (rest, out) \<Rightarrow> Some (evs # rest, out)))"

definition mainLoop :: "config \<Rightarrow> passEnv \<Rightarrow> passEnv list \<Rightarrow> (event list list \<times> outcome) option" where
  "mainLoop cfg first ticks = runPasses cfg (first # (if interval cfg > 0 then ticks else []))"

text \<open>The calls of the sheets client, and the events that put out a part of a report.\<close>

fun isSinkCall :: "event \<Rightarrow> bool" where
  "isSinkCall (ClearRange sid rng) = True"
| "isSinkCall (UpdateRange sid rng rows) = True"
| "isSinkCall ev = False"

fun isReportOutput :: "event \<Rightarrow> bool" where
  "isReportOutput (Println line) = True"
| "isReportOutput (UpdateRange sid rng rows) = True"
| "isReportOutput ev = False"

subsection \<open>Sample configurations and environments\<close>

definition exampleConfig :: "string \<Rightarrow> bool \<Rightarrow> bool \<Rightarrow> int \<Rightarrow> config" where
  "exampleConfig out everyone both ivl =
     \<lparr>outputDest = out, allFlag = everyone, bothFlag = both,
      nocRange = ''History!A1'', allRange = ''HistoryAll!A1'', interval = ivl\<rparr>"

definition exampleEnv ::
  "(goError + Member list) \<Rightarrow> historySource \<Rightarrow> int list \<Rightarrow> int list \<Rightarrow> passEnv" where
  "exampleEnv roster src keys1 keys2 =
     \<lparr>membersResponse = roster, crimesSource = src, spreadsheetID = Some ''sheet-1'',
      clearResult = (\<lambda>k. Some (SinkError ''clear failed'')),
      updateResult = (\<lambda>k. if k = 0 then Some (SinkError ''write failed'') else None),
      render1 = exampleRuntime keys1, render2 = exampleRuntime keys2\<rparr>"

definition inOCRoster :: "Member list" where
  "inOCRoster = [exampleMember 2 ''Bob'' True]"

definition aliceRoster :: "Member list" where
  "aliceRoster = [exampleMember 1 ''alice'' False]"

section \<open>Properties of the reducer\<close>

subsection \<open>The entry of one triple\<close>

lemma entryAt_recordSlot:
  "entryAt (recordSlot crime stats slot) uid d p =
     (if SlotUser.ID (User slot) = uid \<and> Difficulty crime = d \<and> Position slot = p
      then Some (bump (entryAt stats uid d p) (Crime.ExecutedAt crime) (CheckpointPassRate slot))
      else entryAt stats uid d p)"
  by (auto simp: entryAt_def recordSlot_def bump_def Let_def split: option.splits)

lemma bump_idem:
  "bump (Some (bump eo t r)) t r' = bump eo t r"
  by (simp add: bump_def Let_def)

lemma entryAt_foldl_recordSlot:
  "entryAt (foldl (recordSlot crime) stats slots) uid d p =
     (if Difficulty crime = d
      then (case find (\<lambda>s. SlotUser.ID (User s) = uid \<and> Position s = p) slots of
              None \<Rightarrow> entryAt stats uid d p
            | Some s \<Rightarrow> Some (bump (entryAt stats uid d p) (Crime.ExecutedAt crime) (CheckpointPassRate s)))
      else entryAt stats uid d p)"
proof (induction slots arbitrary: stats)
  case Nil
  show ?case by simp
next
  case (Cons s slots)
  show ?case
    by (simp add: Cons.IH entryAt_recordSlot bump_idem split: option.splits)
qed

lemma entryAt_reduceCrime:
  "entryAt (reduceCrime stats crime) uid d p = perCrime uid d p crime (entryAt stats uid d p)"
  by (simp add: reduceCrime_def entryAt_foldl_recordSlot perCrime_def firstSlot_def)

lemma entryAt_foldl_reduceCrime:
  "entryAt (foldl reduceCrime stats crimes) uid d p =
     fold (perCrime uid d p) crimes (entryAt stats uid d p)"
  by (induction crimes arbitrary: stats) (simp_all add: entryAt_reduceCrime)

lemma entryAt_empty: "entryAt Map.empty uid d p = None"
  by (simp add: entryAt_def)

lemma entryAt_reduceAll:
  "entryAt (reduceAll crimes) uid d p = fold (perCrime uid d p) crimes None"
  by (simp add: reduceAll_def entryAt_foldl_reduceCrime entryAt_empty)

subsection \<open>Extensionality of the index\<close>

lemma wfStats_empty: "wfStats Map.empty"
  by (simp add: wfStats_def)

lemma wfStats_recordSlot:
  assumes "wfStats stats"
  shows "wfStats (recordSlot crime stats slot)"
  using assms unfolding wfStats_def recordSlot_def Let_def
  by (auto split: option.splits if_splits)

lemma wfStats_foldl_recordSlot:
  "wfStats stats \<Longrightarrow> wfStats (foldl (recordSlot crime) stats slots)"
  by (induction slots arbitrary: stats) (simp_all add: wfStats_recordSlot)

lemma wfStats_reduceCrime: "wfStats stats \<Longrightarrow> wfStats (reduceCrime stats crime)"
  by (simp add: reduceCrime_def wfStats_foldl_recordSlot)

lemma wfStats_foldl_reduceCrime:
  "wfStats stats \<Longrightarrow> wfStats (foldl reduceCrime stats crimes)"
  by (induction crimes arbitrary: stats) (simp_all add: wfStats_reduceCrime)

lemma wfStats_reduceAll: "wfStats (reduceAll crimes)"
  by (simp add: reduceAll_def wfStats_foldl_reduceCrime wfStats_empty)

lemma inner_ext:
  assumes a: "\<forall>d byP. (A::int \<rightharpoonup> (string \<rightharpoonup> RateInfo)) d = Some byP \<longrightarrow> (\<exists>p. byP p \<noteq> None)"
    and b: "\<forall>d byP. B d = Some byP \<longrightarrow> (\<exists>p. byP p \<noteq> None)"
    and eq: "\<forall>d p. (case A d of None \<Rightarrow> None | Some byP \<Rightarrow> byP p)
                  = (case B d of None \<Rightarrow> None | Some byP \<Rightarrow> byP p)"
  shows "A = B"
proof (rule ext)
  fix d
  show "A d = B d"
  proof (cases "A d")
    case None
    show ?thesis
    proof (cases "B d")
      case None
      with \<open>A d = None\<close> show ?thesis by simp
    next
      case (Some bp)
      with b obtain p where "bp p \<noteq> None" by blast
      with eq Some \<open>A d = None\<close> show ?thesis
        by (metis option.simps(4) option.simps(5))
    qed
  next
    case (Some ap)
    show ?thesis
    proof (cases "B d")
      case None
      from a Some obtain p where "ap p \<noteq> None" by blast
      with eq Some None show ?thesis
        by (metis option.simps(4) option.simps(5))
    next
      case (Some bp)
      have "ap p = bp p" for p
        using eq \<open>A d = Some ap\<close> Some by (metis option.simps(5))
      then have "ap = bp" by (rule ext)
      with \<open>A d = Some ap\<close> Some show ?thesis by simp
    qed
  qed
qed

lemma stats_ext:
  assumes a: "wfStats A" and b: "wfStats B"
    and eq: "\<And>uid d p. entryAt A uid d p = entryAt B uid d p"
  shows "A = B"
proof (rule ext)
  fix uid
  show "A uid = B uid"
  proof (cases "A uid")
    case None
    show ?thesis
    proof (cases "B uid")
      case None
      with \<open>A uid = None\<close> show ?thesis by simp
    next
      case (Some bd)
      with b obtain d bp where "bd d = Some bp" unfolding wfStats_def by fastforce
      moreover with b Some obtain p where "bp p \<noteq> None" unfolding wfStats_def by blast
      ultimately have "entryAt B uid d p \<noteq> None" using Some by (simp add: entryAt_def)
      moreover have "entryAt A uid d p = None" using \<open>A uid = None\<close> by (simp add: entryAt_def)
      ultimately show ?thesis using eq by simp
    qed
  next
    case (Some ad)
    show ?thesis
    proof (cases "B uid")
      case None
      from a Some obtain d ap where "ad d = Some ap" unfolding wfStats_def by fastforce
      moreover with a Some obtain p where "ap p \<noteq> None" unfolding wfStats_def by blast
      ultimately have "entryAt A uid d p \<noteq> None" using Some by (simp add: entryAt_def)
      moreover have "entryAt B uid d p = None" using None by (simp add: entryAt_def)
      ultimately show ?thesis using eq by simp
    next
      case (Some bd)
      have "ad = bd"
      proof (rule inner_ext)
        show "\<forall>d byP. ad d = Some byP \<longrightarrow> (\<exists>p. byP p \<noteq> None)"
          using a \<open>A uid = Some ad\<close> unfolding wfStats_def by blast
        show "\<forall>d byP. bd d = Some byP \<longrightarrow> (\<exists>p. byP p \<noteq> None)"
          using b Some unfolding wfStats_def by blast
        show "\<forall>d p. (case ad d of None \<Rightarrow> None | Some byP \<Rightarrow> byP p)
                  = (case bd d of None \<Rightarrow> None | Some byP \<Rightarrow> byP p)"
        proof (intro allI)
          fix d p
          show "(case ad d of None \<Rightarrow> None | Some byP \<Rightarrow> byP p)
                  = (case bd d of None \<Rightarrow> None | Some byP \<Rightarrow> byP p)"
            using eq [of uid d p] \<open>A uid = Some ad\<close> Some by (simp add: entryAt_def)
        qed
      qed
      with \<open>A uid = Some ad\<close> Some show ?thesis by simp
    qed
  qed
qed

lemma perCrime_commute:
  assumes "Crime.ExecutedAt c1 \<noteq> Crime.ExecutedAt c2 \<or> c1 = c2"
  shows "perCrime uid d p c1 \<circ> perCrime uid d p c2 = perCrime uid d p c2 \<circ> perCrime uid d p c1"
proof (rule ext)
  fix eo
  show "(perCrime uid d p c1 \<circ> perCrime uid d p c2) eo = (perCrime uid d p c2 \<circ> perCrime uid d p c1) eo"
    using assms
    by (cases eo) (auto simp: perCrime_def bump_def Let_def split: option.splits)
qed

lemma reduceAll_permutation:
  assumes "distinct (map Crime.ExecutedAt crimes)" and "mset crimes' = mset crimes"
  shows "reduceAll crimes' = reduceAll crimes"
proof (rule stats_ext)
  show "wfStats (reduceAll crimes')" by (rule wfStats_reduceAll)
  show "wfStats (reduceAll crimes)" by (rule wfStats_reduceAll)
  fix uid d p
  have inj: "inj_on Crime.ExecutedAt (set crimes)"
    using assms(1) by (simp add: distinct_map)
  have "fold (perCrime uid d p) crimes = fold (perCrime uid d p) crimes'"
  proof (rule fold_multiset_equiv)
    fix x y assume "x \<in> set crimes" "y \<in> set crimes"
    with inj have "Crime.ExecutedAt x \<noteq> Crime.ExecutedAt y \<or> x = y"
      by (auto dest: inj_onD)
    then show "perCrime uid d p x \<circ> perCrime uid d p y = perCrime uid d p y \<circ> perCrime uid d p x"
      by (rule perCrime_commute)
  next
    show "mset crimes = mset crimes'" using assms(2) by simp
  qed
  then show "entryAt (reduceAll crimes') uid d p = entryAt (reduceAll crimes) uid d p"
    by (simp add: entryAt_reduceAll)
qed

subsection \<open>What is stored for a triple\<close>

lemma fold_perCrime_None:
  "fold (perCrime uid d p) crimes eo = None \<longleftrightarrow>
     eo = None \<and> (\<forall>c\<in>set crimes. \<not> contributes uid d p c)"
  by (induction crimes arbitrary: eo)
     (auto simp: perCrime_def contributes_def split: option.splits)

lemma latestAt_snoc:
  "latestAt uid d p t (crimes @ [c]) =
     (case latestAt uid d p t crimes of
        None \<Rightarrow> (if contributes uid d p c \<and> Crime.ExecutedAt c = t then Some c else None)
      | Some c' \<Rightarrow> Some c')"
  by (induction crimes) (simp_all add: latestAt_def)

lemma latestAt_None:
  "latestAt uid d p t crimes = None \<longleftrightarrow>
     (\<forall>c\<in>set crimes. contributes uid d p c \<longrightarrow> Crime.ExecutedAt c \<noteq> t)"
  by (auto simp: latestAt_def find_None_iff)

lemma fold_perCrime_Some:
  "fold (perCrime uid d p) crimes None = Some e \<Longrightarrow> storedFor uid d p crimes e"
proof (induction crimes arbitrary: e rule: rev_induct)
  case Nil
  then show ?case by simp
next
  case (snoc c crimes)
  let ?prev = "fold (perCrime uid d p) crimes None"
  from snoc.prems have step: "perCrime uid d p c ?prev = Some e" by simp
  show ?case
  proof (cases "firstSlot uid d p c")
    case None
    with step have prev: "?prev = Some e" by (simp add: perCrime_def)
    from snoc.IH [OF prev] None show ?thesis
      by (auto simp: storedFor_def latestAt_snoc contributes_def split: option.splits)
  next
    case (Some s)
    then have contrib: "contributes uid d p c" by (simp add: contributes_def)
    from step Some have e: "e = bump ?prev (Crime.ExecutedAt c) (CheckpointPassRate s)"
      by (simp add: perCrime_def)
    show ?thesis
    proof (cases ?prev)
      case None
      then have nocontrib: "\<forall>c\<in>set crimes. \<not> contributes uid d p c"
        by (simp add: fold_perCrime_None)
      then have "latestAt uid d p t crimes = None" for t
        by (simp add: latestAt_None)
      with e None Some contrib nocontrib show ?thesis
        by (auto simp: storedFor_def latestAt_snoc bump_def zeroRateInfo_def Let_def)
    next
      case (Some e0)
      from snoc.IH [OF Some] have ih: "storedFor uid d p crimes e0" .
      show ?thesis
      proof (cases "Crime.ExecutedAt c > RateInfo.ExecutedAt e0")
        case True
        with e Some have e': "e = \<lparr>Rate = CheckpointPassRate s, RateInfo.ExecutedAt = Crime.ExecutedAt c\<rparr>"
          by (simp add: bump_def Let_def)
        from ih True have "latestAt uid d p (Crime.ExecutedAt c) crimes = None"
          by (auto simp: latestAt_None storedFor_def)
        with ih True e' contrib \<open>firstSlot uid d p c = Some s\<close> show ?thesis
          apply (simp add: storedFor_def latestAt_snoc)
          apply (auto simp: zeroRateInfo_def split: if_splits)
          done
      next
        case False
        with e Some have e': "e = e0" by (simp add: bump_def Let_def)
        from ih False e' show ?thesis
          by (auto simp: storedFor_def latestAt_snoc split: option.splits if_splits)
      qed
    qed
  qed
qed

lemma latestAt_Some:
  "latestAt uid d p t crimes = Some c \<Longrightarrow>
     c \<in> set crimes \<and> contributes uid d p c \<and> Crime.ExecutedAt c = t"
  unfolding latestAt_def by (auto simp: find_Some_iff)

lemma entryAt_reduceAll_present:
  assumes "c \<in> set crimes" and "contributes uid d p c"
  obtains e where "entryAt (reduceAll crimes) uid d p = Some e" and "storedFor uid d p crimes e"
proof -
  have "fold (perCrime uid d p) crimes None \<noteq> None"
    using assms by (auto simp: fold_perCrime_None)
  then obtain e where e: "fold (perCrime uid d p) crimes None = Some e" by blast
  from fold_perCrime_Some [OF e] e that show thesis
    by (simp add: entryAt_reduceAll)
qed

lemma entryAt_reduceAll_first_seen:
  assumes pos: "0 < t"
    and first: "find (\<lambda>c. contributes uid d p c \<and> Crime.ExecutedAt c = t) crimes = Some c1"
    and slot: "firstSlot uid d p c1 = Some s1"
    and top: "\<forall>c\<in>set crimes. contributes uid d p c \<longrightarrow> Crime.ExecutedAt c \<le> t"
  shows "entryAt (reduceAll crimes) uid d p = Some \<lparr>Rate = CheckpointPassRate s1, RateInfo.ExecutedAt = t\<rparr>"
proof -
  from first have l1: "latestAt uid d p t crimes = Some c1" by (simp add: latestAt_def)
  from latestAt_Some [OF l1] have c1: "c1 \<in> set crimes" "contributes uid d p c1" "Crime.ExecutedAt c1 = t"
    by simp_all
  from c1(1,2) obtain e where e: "entryAt (reduceAll crimes) uid d p = Some e"
    and st: "storedFor uid d p crimes e" by (rule entryAt_reduceAll_present)
  from st c1 have ge: "t \<le> RateInfo.ExecutedAt e" by (auto simp: storedFor_def)
  with pos have "0 < RateInfo.ExecutedAt e" by simp
  with st obtain c s where l: "latestAt uid d p (RateInfo.ExecutedAt e) crimes = Some c"
    and s: "firstSlot uid d p c = Some s" and r: "Rate e = CheckpointPassRate s"
    by (auto simp: storedFor_def)
  from latestAt_Some [OF l] top have "RateInfo.ExecutedAt e \<le> t" by auto
  with ge have t: "RateInfo.ExecutedAt e = t" by simp
  with l l1 have "c = c1" by simp
  with s slot have "s = s1" by simp
  with r t have "e = \<lparr>Rate = CheckpointPassRate s1, RateInfo.ExecutedAt = t\<rparr>" by simp
  with e show ?thesis by simp
qed

lemma entryAt_reduceAll_tie_ignored:
  assumes "contributes uid d p c1" and "Crime.ExecutedAt c2 = Crime.ExecutedAt c1"
  shows "entryAt (reduceAll (pre @ c1 # mid @ c2 # post)) uid d p
       = entryAt (reduceAll (pre @ c1 # mid @ post)) uid d p"
proof -
  let ?f = "perCrime uid d p"
  have "c1 \<in> set (pre @ c1 # mid)" by simp
  with assms(1) have "fold ?f (pre @ c1 # mid) None \<noteq> None"
    unfolding fold_perCrime_None by blast
  then obtain e where e: "fold ?f (pre @ c1 # mid) None = Some e" by blast
  from fold_perCrime_Some [OF e] assms(1) have "Crime.ExecutedAt c1 \<le> RateInfo.ExecutedAt e"
    by (auto simp: storedFor_def)
  with assms(2) have "?f c2 (Some e) = Some e"
    by (simp add: perCrime_def bump_def Let_def split: option.splits)
  with e have "fold ?f ((pre @ c1 # mid) @ c2 # post) None = fold ?f ((pre @ c1 # mid) @ post) None"
    unfolding fold_append by simp
  then show ?thesis by (simp add: entryAt_reduceAll)
qed

lemma entryAt_reduceAll_two_records:
  assumes c1: "c1 \<in> set crimes" "contributes uid d p c1" "Crime.ExecutedAt c1 = 100"
    and c2: "c2 \<in> set crimes" "firstSlot uid d p c2 = Some s2" "Crime.ExecutedAt c2 = 200"
    and only: "\<forall>c\<in>set crimes. contributes uid d p c \<longrightarrow> c = c1 \<or> c = c2"
    and perm: "mset crimes' = mset crimes"
  shows "entryAt (reduceAll crimes') uid d p
       = Some \<lparr>Rate = CheckpointPassRate s2, RateInfo.ExecutedAt = 200\<rparr>"
proof (rule entryAt_reduceAll_first_seen)
  from perm have set_eq: "set crimes' = set crimes" by (rule mset_eq_setD)
  show "(0::int) < 200" by simp
  show "firstSlot uid d p c2 = Some s2" by (rule c2(2))
  show "\<forall>c\<in>set crimes'. contributes uid d p c \<longrightarrow> Crime.ExecutedAt c \<le> 200"
    using only c1(3) c2(3) set_eq by auto
  have "find (\<lambda>c. contributes uid d p c \<and> Crime.ExecutedAt c = 200) crimes' \<noteq> None"
    using c2 set_eq by (auto simp: find_None_iff contributes_def)
  then obtain c where c: "find (\<lambda>c. contributes uid d p c \<and> Crime.ExecutedAt c = 200) crimes' = Some c"
    by blast
  then have "c \<in> set crimes'" "contributes uid d p c" "Crime.ExecutedAt c = 200"
    by (auto simp: find_Some_iff)
  with only set_eq c1(3) have "c = c2" by auto
  with c show "find (\<lambda>c. contributes uid d p c \<and> Crime.ExecutedAt c = 200) crimes' = Some c2"
    by simp
qed

lemmas example_defs = exA_def exB_def exO_def exTie_def exampleCrime_def exampleSlot_def

subsection \<open>Order independence\<close>

lemma reduceCrime_tie_keeps_entry:
  assumes "entryAt stats uid d p = Some e" and "Crime.ExecutedAt c = RateInfo.ExecutedAt e"
  shows "entryAt (reduceCrime stats c) uid d p = Some e"
  using assms by (simp add: entryAt_reduceCrime perCrime_def bump_def Let_def split: option.splits)

text \<open>
  Claim C1. The reducer is order-independent up to the tie rule. (1) When the only crimes
  of the list that assign a triple are two crimes executed at 100 and at 200, every
  permutation of the list leaves, for that triple, the pass rate of the crime executed at
  200 (of its first slot for the triple) and the timestamp 200. (2) When the crimes have
  pairwise distinct execution times, every permutation of the list gives the same index.
  (3) The tie rule: a crime whose execution time equals the one of the stored entry leaves
  the entry as it is. (4) So a crime that ties with a crime consumed before it does not
  change the entry of a triple the earlier crime assigned: the result is the one obtained
  without the later crime. (5) When the first crime of the list executed at the largest
  time \<open>t\<close> of a triple is \<open>a\<close>, and \<open>t\<close> is positive, the entry
  holds the pass rate of \<open>a\<close> and \<open>t\<close>, whatever ties follow.
\<close>

theorem reducer_order_independent:
  "(c1 \<in> set crimes \<and> contributes uid d p c1 \<and> Crime.ExecutedAt c1 = 100 \<and>
    c2 \<in> set crimes \<and> firstSlot uid d p c2 = Some s2 \<and> Crime.ExecutedAt c2 = 200 \<and>
    (\<forall>c\<in>set crimes. contributes uid d p c \<longrightarrow> c = c1 \<or> c = c2) \<and>
    mset crimes' = mset crimes
    \<longrightarrow> entryAt (reduceAll crimes') uid d p
          = Some \<lparr>Rate = CheckpointPassRate s2, RateInfo.ExecutedAt = 200\<rparr>) \<and>
   (distinct (map Crime.ExecutedAt crimes) \<and> mset crimes' = mset crimes
    \<longrightarrow> reduceAll crimes' = reduceAll crimes) \<and>
   (entryAt stats uid d p = Some e \<and> Crime.ExecutedAt c = RateInfo.ExecutedAt e
    \<longrightarrow> entryAt (reduceCrime stats c) uid d p = Some e) \<and>
   (contributes uid d p a \<and> Crime.ExecutedAt b = Crime.ExecutedAt a
    \<longrightarrow> entryAt (reduceAll (pre @ a # mid @ b # post)) uid d p
          = entryAt (reduceAll (pre @ a # mid @ post)) uid d p) \<and>
   (0 < t \<and> find (\<lambda>c. contributes uid d p c \<and> Crime.ExecutedAt c = t) crimes = Some a \<and>
    firstSlot uid d p a = Some s \<and>
    (\<forall>c\<in>set crimes. contributes uid d p c \<longrightarrow> Crime.ExecutedAt c \<le> t)
    \<longrightarrow> entryAt (reduceAll crimes) uid d p
          = Some \<lparr>Rate = CheckpointPassRate s, RateInfo.ExecutedAt = t\<rparr>)"
  using entryAt_reduceAll_two_records [of c1 crimes uid d p c2 s2 crimes']
    reduceAll_permutation [of crimes crimes']
    reduceCrime_tie_keeps_entry [of stats uid d p e c]
    entryAt_reduceAll_tie_ignored [of uid d p a b pre mid post]
    entryAt_reduceAll_first_seen [of t uid d p crimes a s]
  by blast

subsection \<open>The most recent record wins\<close>

text \<open>
  Claim C2, as amended. For every triple present in the index after the whole list is
  consumed, some crime contributed a slot; the stored timestamp is the maximum execution
  time of the contributing crimes when that maximum is positive, and \<open>0\<close>
  otherwise; when the maximum is positive the stored pass rate is the one of the first
  slot for the triple in the first crime of the list executed at the maximum (a value of
  one record, never a combination); when the maximum is not positive the entry is the
  zero entry the loop created.
\<close>

theorem recency_invariant:
  assumes "entryAt (reduceAll crimes) uid d p = Some e"
  shows "(let records = filter (contributes uid d p) crimes;
              T = Max (set (map Crime.ExecutedAt records))
          in records \<noteq> [] \<and> RateInfo.ExecutedAt e = max 0 T \<and>
             (0 < T \<longrightarrow>
                (\<exists>c s. find (\<lambda>c. contributes uid d p c \<and> Crime.ExecutedAt c = T) crimes = Some c \<and>
                       firstSlot uid d p c = Some s \<and> Rate e = CheckpointPassRate s)) \<and>
             (T \<le> 0 \<longrightarrow> e = zeroRateInfo))"
proof -
  let ?records = "filter (contributes uid d p) crimes"
  let ?S = "set (map Crime.ExecutedAt ?records)"
  from assms have f: "fold (perCrime uid d p) crimes None = Some e"
    by (simp add: entryAt_reduceAll)
  then have "\<not> (\<forall>c\<in>set crimes. \<not> contributes uid d p c)"
    using fold_perCrime_None [of uid d p crimes None] by simp
  then have ne: "?records \<noteq> []" by (simp add: filter_empty_conv)
  then have S: "finite ?S" "?S \<noteq> {}" by (auto simp: filter_empty_conv)
  from fold_perCrime_Some [OF f] have st: "storedFor uid d p crimes e" .
  then have ub: "\<forall>x\<in>?S. x \<le> RateInfo.ExecutedAt e" by (auto simp: storedFor_def)
  show ?thesis
  proof (cases "0 < RateInfo.ExecutedAt e")
    case True
    with st obtain c s where l: "latestAt uid d p (RateInfo.ExecutedAt e) crimes = Some c"
      and s: "firstSlot uid d p c = Some s" and r: "Rate e = CheckpointPassRate s"
      by (auto simp: storedFor_def)
    from latestAt_Some [OF l] have mem: "RateInfo.ExecutedAt e \<in> ?S" by force
    have T: "Max ?S = RateInfo.ExecutedAt e"
    proof (rule Max_eqI)
      show "finite ?S" by (rule S(1))
      show "y \<le> RateInfo.ExecutedAt e" if "y \<in> ?S" for y using ub that by blast
      show "RateInfo.ExecutedAt e \<in> ?S" by (rule mem)
    qed
    with True l s r ne show ?thesis by (simp add: Let_def latestAt_def)
  next
    case False
    with st have z: "e = zeroRateInfo" by (simp add: storedFor_def)
    then have "RateInfo.ExecutedAt e = 0" by (simp add: zeroRateInfo_def)
    with ub have "\<forall>x\<in>?S. x \<le> 0" by simp
    with S have "Max ?S \<le> 0" by (subst Max_le_iff) blast+
    with z ne show ?thesis by (simp add: Let_def zeroRateInfo_def)
  qed
qed

text \<open>The five parts of C1 at a concrete list, one of its rearrangements and a tying crime.\<close>

theorem reducer_order_independent_witness:
  "(exA \<in> set [exA, exO, exB] \<and> contributes 7 3 ''Muscle'' exA \<and> Crime.ExecutedAt exA = 100 \<and>
    exB \<in> set [exA, exO, exB] \<and>
    firstSlot 7 3 ''Muscle'' exB = Some (exampleSlot 7 ''Muscle'' 70) \<and>
    Crime.ExecutedAt exB = 200 \<and>
    filter (contributes 7 3 ''Muscle'') [exA, exO, exB] = [exA, exB] \<and>
    mset [exB, exO, exA] = mset [exA, exO, exB]) \<and>
   entryAt (reduceAll [exB, exO, exA]) 7 3 ''Muscle'' = Some \<lparr>Rate = 70, RateInfo.ExecutedAt = 200\<rparr> \<and>
   distinct (map Crime.ExecutedAt [exA, exO, exB]) \<and>
   reduceAll [exB, exO, exA] = reduceAll [exA, exO, exB] \<and>
   entryAt (reduceAll [exA, exB]) 7 3 ''Muscle'' = Some \<lparr>Rate = 70, RateInfo.ExecutedAt = 200\<rparr> \<and>
   Crime.ExecutedAt exTie = 200 \<and>
   entryAt (reduceCrime (reduceAll [exA, exB]) exTie) 7 3 ''Muscle''
     = Some \<lparr>Rate = 70, RateInfo.ExecutedAt = 200\<rparr> \<and>
   Crime.ExecutedAt exTie = Crime.ExecutedAt exB \<and>
   entryAt (reduceAll ([exA] @ exB # [exO] @ exTie # [])) 7 3 ''Muscle''
     = entryAt (reduceAll ([exA] @ exB # [exO] @ [])) 7 3 ''Muscle'' \<and>
   find (\<lambda>c. contributes 7 3 ''Muscle'' c \<and> Crime.ExecutedAt c = 200) [exA, exO, exB] = Some exB \<and>
   map Crime.ExecutedAt (filter (contributes 7 3 ''Muscle'') [exA, exO, exB]) = [100, 200] \<and>
   entryAt (reduceAll [exA, exO, exB]) 7 3 ''Muscle'' = Some \<lparr>Rate = 70, RateInfo.ExecutedAt = 200\<rparr>"
proof -
  have stored: "entryAt (reduceAll [exA, exB]) 7 3 ''Muscle''
      = Some \<lparr>Rate = 70, RateInfo.ExecutedAt = 200\<rparr>"
    by (simp add: entryAt_reduceAll perCrime_def bump_def zeroRateInfo_def firstSlot_def
        example_defs)
  show ?thesis
    using reducer_order_independent [where ?c1.0 = exA and crimes = "[exA, exO, exB]"
        and uid = 7 and d = 3 and p = "''Muscle''" and ?c2.0 = exB
        and ?s2.0 = "exampleSlot 7 ''Muscle'' 70" and crimes' = "[exB, exO, exA]"
        and stats = "reduceAll [exA, exB]" and e = "\<lparr>Rate = 70, RateInfo.ExecutedAt = 200\<rparr>"
        and c = exTie
        and a = exB and b = exTie and pre = "[exA]" and mid = "[exO]" and post = "[]"
        and t = 200 and s = "exampleSlot 7 ''Muscle'' 70"]
      stored
    by (simp add: example_defs contributes_def firstSlot_def)
qed

text \<open>The amended C2 at a list with two crimes for the triple and one foreign crime.\<close>

theorem recency_invariant_witness:
  "entryAt (reduceAll [exA, exO, exB]) 7 3 ''Muscle'' = Some \<lparr>Rate = 70, RateInfo.ExecutedAt = 200\<rparr> \<and>
   filter (contributes 7 3 ''Muscle'') [exA, exO, exB] = [exA, exB] \<and>
   Max (set (map Crime.ExecutedAt [exA, exB])) = 200 \<and>
   find (\<lambda>c. contributes 7 3 ''Muscle'' c \<and> Crime.ExecutedAt c = 200) [exA, exO, exB] = Some exB \<and>
   firstSlot 7 3 ''Muscle'' exB = Some (exampleSlot 7 ''Muscle'' 70)"
proof -
  have stored: "entryAt (reduceAll [exA, exO, exB]) 7 3 ''Muscle''
      = Some \<lparr>Rate = 70, RateInfo.ExecutedAt = 200\<rparr>"
    by (simp add: example_defs reduceAll_def reduceCrime_def recordSlot_def entryAt_def
        zeroRateInfo_def Let_def)
  from recency_invariant [OF stored] stored show ?thesis
    by (simp add: example_defs contributes_def firstSlot_def)
qed

text \<open>
  C2 as first stated fails for a crime whose execution time is \<open>0\<close> (the value
  of an absent \<open>executed_at\<close>): the comparison with the zero entry is strict, so
  the entry stays \<open>RateInfo{}\<close> although the only contributing crime carries the
  pass rate 50.
\<close>

theorem recency_invariant_counterexample:
  "entryAt (reduceAll [exampleCrime 5 3 0 [exampleSlot 7 ''Muscle'' 50]]) 7 3 ''Muscle''
     = Some \<lparr>Rate = 0, RateInfo.ExecutedAt = 0\<rparr> \<and>
   filter (contributes 7 3 ''Muscle'') [exampleCrime 5 3 0 [exampleSlot 7 ''Muscle'' 50]]
     = [exampleCrime 5 3 0 [exampleSlot 7 ''Muscle'' 50]] \<and>
   map CheckpointPassRate (Slots (exampleCrime 5 3 0 [exampleSlot 7 ''Muscle'' 50])) = [50]"
  by (simp add: exampleCrime_def exampleSlot_def reduceAll_def reduceCrime_def recordSlot_def
      entryAt_def zeroRateInfo_def contributes_def firstSlot_def Let_def)

section \<open>Properties of the fetcher\<close>

lemma fetchLoop_pages:
  assumes full: "\<forall>k. i \<le> k \<and> k < n \<longrightarrow> get k (of_nat k * 100) = Inr (pages k) \<and> 100 \<le> length (pages k)"
    and short: "get n (of_nat n * 100) = Inr (pages n)" "length (pages n) < 100"
    and le: "i \<le> n"
  shows "fetchLoop get i (of_nat i * 100) all reqs =
           Some (reqs @ map (\<lambda>k. of_nat k * 100) [i..<Suc n],
                 Inr (all @ concat (map pages [i..<Suc n])))"
  using full le
proof (induction "n - i" arbitrary: i all reqs)
  case 0
  then have "i = n" by simp
  with short show ?case
    by (subst fetchLoop.simps) (simp add: pageSize_def)
next
  case (Suc m)
  then have lt: "i < n" by simp
  with Suc.prems have page: "get i (of_nat i * 100) = Inr (pages i)" "100 \<le> length (pages i)"
    by simp_all
  have step: "fetchLoop get i (of_nat i * 100) all reqs =
      fetchLoop get (Suc i) (of_nat (Suc i) * 100) (all @ pages i) (reqs @ [of_nat i * 100])"
    using page by (subst fetchLoop.simps) (simp add: pageSize_def algebra_simps)
  have "fetchLoop get (Suc i) (of_nat (Suc i) * 100) (all @ pages i) (reqs @ [of_nat i * 100]) =
      Some ((reqs @ [of_nat i * 100]) @ map (\<lambda>k. of_nat k * 100) [Suc i..<Suc n],
            Inr ((all @ pages i) @ concat (map pages [Suc i..<Suc n])))"
  proof (rule Suc.hyps(1))
    show "m = n - Suc i" using Suc.hyps(2) by simp
    show "\<forall>k. Suc i \<le> k \<and> k < n \<longrightarrow> get k (of_nat k * 100) = Inr (pages k) \<and> 100 \<le> length (pages k)"
      using Suc.prems(1) by simp
    show "Suc i \<le> n" using lt by simp
  qed
  moreover have "[i..<Suc n] = i # [Suc i..<Suc n]" using lt by (simp add: upt_conv_Cons)
  ultimately show ?case using step by simp
qed

lemma fetchAllCrimes_pages:
  assumes "\<forall>k<n. get k (of_nat k * 100) = Inr (pages k) \<and> 100 \<le> length (pages k)"
    and "get n (of_nat n * 100) = Inr (pages n)" and "length (pages n) < 100"
  shows "fetchAllCrimes get =
           Some (map (\<lambda>k. of_nat k * 100) [0..<Suc n], Inr (concat (map pages [0..<Suc n])))"
  using fetchLoop_pages [of 0 n get pages "[]" "[]"] assms
  by (simp add: fetchAllCrimes_def)

lemma fetchAllCrimes_three:
  assumes "get 0 0 = Inr p0" "get 1 100 = Inr p1" "get 2 200 = Inr p2"
    and "length p0 = 100" "length p1 = 100" "length p2 = 47"
  shows "fetchAllCrimes get = Some ([0, 100, 200], Inr (p0 @ p1 @ p2))"
  using assms
  by (simp add: fetchAllCrimes_def fetchLoop.simps pageSize_def Let_def numeral_2_eq_2 numeral_3_eq_3)

lemma fetchAllCrimes_four:
  assumes "get 0 0 = Inr p0" "get 1 100 = Inr p1" "get 2 200 = Inr p2" "get 3 300 = Inr p3"
    and "length p0 = 100" "length p1 = 100" "length p2 = 100" "length p3 = 0"
  shows "fetchAllCrimes get = Some ([0, 100, 200, 300], Inr (p0 @ p1 @ p2 @ p3))"
  using assms
  by (simp add: fetchAllCrimes_def fetchLoop.simps pageSize_def Let_def numeral_2_eq_2 numeral_3_eq_3)

text \<open>
  Claim C3. When the first \<open>n\<close> answers are pages of at least 100 records and the
  next one is a page of fewer than 100, the fetcher makes exactly \<open>n + 1\<close> requests,
  at the offsets 0, 100, 200 and so on (the step is the page size, whatever the number of
  records received), and returns the pages appended in order. For pages of sizes 100, 100
  and 47 these are three requests at 0, 100 and 200 and 247 records; for sizes 100, 100,
  100 and 0 four requests and 300 records.
\<close>

theorem fetchAllCrimes_pagination:
  "((\<forall>k<n. get k (of_nat k * 100) = Inr (pages k) \<and> 100 \<le> length (pages k)) \<and>
    get n (of_nat n * 100) = Inr (pages n) \<and> length (pages n) < 100
    \<longrightarrow> fetchAllCrimes get =
          Some (map (\<lambda>k. of_nat k * 100) [0..<Suc n], Inr (concat (map pages [0..<Suc n])))) \<and>
   (src3 0 0 = Inr p0 \<and> src3 1 100 = Inr p1 \<and> src3 2 200 = Inr p2 \<and>
    length p0 = 100 \<and> length p1 = 100 \<and> length p2 = 47
    \<longrightarrow> fetchAllCrimes src3 = Some ([0, 100, 200], Inr (p0 @ p1 @ p2)) \<and>
        map sint [0, 100, 200 :: 64 word] = [0, 100, 200] \<and>
        length (p0 @ p1 @ p2) = 247) \<and>
   (src4 0 0 = Inr q0 \<and> src4 1 100 = Inr q1 \<and> src4 2 200 = Inr q2 \<and> src4 3 300 = Inr q3 \<and>
    length q0 = 100 \<and> length q1 = 100 \<and> length q2 = 100 \<and> length q3 = 0
    \<longrightarrow> fetchAllCrimes src4 = Some ([0, 100, 200, 300], Inr (q0 @ q1 @ q2 @ q3)) \<and>
        map sint [0, 100, 200, 300 :: 64 word] = [0, 100, 200, 300] \<and>
        length (q0 @ q1 @ q2 @ q3) = 300)"
proof (intro conjI impI)
  assume "(\<forall>k<n. get k (of_nat k * 100) = Inr (pages k) \<and> 100 \<le> length (pages k)) \<and>
    get n (of_nat n * 100) = Inr (pages n) \<and> length (pages n) < 100"
  then show "fetchAllCrimes get =
          Some (map (\<lambda>k. of_nat k * 100) [0..<Suc n], Inr (concat (map pages [0..<Suc n])))"
    using fetchAllCrimes_pages [of n get pages] by blast
next
  assume a: "src3 0 0 = Inr p0 \<and> src3 1 100 = Inr p1 \<and> src3 2 200 = Inr p2 \<and>
    length p0 = 100 \<and> length p1 = 100 \<and> length p2 = 47"
  then show "fetchAllCrimes src3 = Some ([0, 100, 200], Inr (p0 @ p1 @ p2))"
    by (simp add: fetchAllCrimes_three)
  show "map sint [0, 100, 200 :: 64 word] = [0, 100, 200]" by simp
  from a show "length (p0 @ p1 @ p2) = 247" by simp
next
  assume a: "src4 0 0 = Inr q0 \<and> src4 1 100 = Inr q1 \<and> src4 2 200 = Inr q2 \<and> src4 3 300 = Inr q3 \<and>
    length q0 = 100 \<and> length q1 = 100 \<and> length q2 = 100 \<and> length q3 = 0"
  then show "fetchAllCrimes src4 = Some ([0, 100, 200, 300], Inr (q0 @ q1 @ q2 @ q3))"
    by (simp add: fetchAllCrimes_four)
  show "map sint [0, 100, 200, 300 :: 64 word] = [0, 100, 200, 300]" by simp
  from a show "length (q0 @ q1 @ q2 @ q3) = 300" by simp
qed

lemma examplePages_3 [simp]:
  "examplePages [a, b, c] = [replicate a exO, replicate b exO, replicate c exO]"
  "examplePages [a, b, c, d] = [replicate a exO, replicate b exO, replicate c exO, replicate d exO]"
  by (simp_all add: examplePages_def)

text \<open>
  C3 on concrete sources: a second page of 150 records still moves the offset by 100.
\<close>

theorem fetchAllCrimes_pagination_witness:
  "pagedSource (examplePages [100, 150, 47]) 1 100 = Inr (replicate 150 exO) \<and>
   fetchAllCrimes (pagedSource (examplePages [100, 150, 47]))
     = Some ([0, 100, 200], Inr (replicate 100 exO @ replicate 150 exO @ replicate 47 exO)) \<and>
   pagedSource (examplePages [100, 100, 47]) 2 200 = Inr (replicate 47 exO) \<and>
   fetchAllCrimes (pagedSource (examplePages [100, 100, 47]))
     = Some ([0, 100, 200], Inr (replicate 100 exO @ replicate 100 exO @ replicate 47 exO)) \<and>
   length (replicate 100 exO @ replicate 100 exO @ replicate 47 exO) = 247 \<and>
   pagedSource (examplePages [100, 100, 100, 0]) 3 300 = Inr [] \<and>
   fetchAllCrimes (pagedSource (examplePages [100, 100, 100, 0]))
     = Some ([0, 100, 200, 300],
             Inr (replicate 100 exO @ replicate 100 exO @ replicate 100 exO @ [])) \<and>
   length (replicate 100 exO @ replicate 100 exO @ replicate 100 exO @ []) = 300"
proof -
  have less2: "k < 2 \<longleftrightarrow> k = 0 \<or> k = 1" for k :: nat by auto
  have upt3: "[0..<3] = [0, 1, 2::nat]" by (simp add: upt_rec)
  show ?thesis
    using fetchAllCrimes_pagination [where n = 2
        and get = "pagedSource (examplePages [100, 150, 47])"
        and pages = "\<lambda>k. examplePages [100, 150, 47] ! k"
        and ?src3.0 = "pagedSource (examplePages [100, 100, 47])"
        and ?p0.0 = "replicate 100 exO" and ?p1.0 = "replicate 100 exO"
        and ?p2.0 = "replicate 47 exO"
        and ?src4.0 = "pagedSource (examplePages [100, 100, 100, 0])"
        and ?q0.0 = "replicate 100 exO" and ?q1.0 = "replicate 100 exO"
        and ?q2.0 = "replicate 100 exO" and ?q3.0 = "[]"]
    by (simp add: pagedSource_def less2 upt3)
qed

section \<open>Properties of the renderer\<close>

lemmas render_defs = lookupMember_def generateReportLines_def renderOrder_def memberEntries_def memberLines_def
  difficultyLines_def positionLine_def summaryLine_def lessByName_def selectAll_def selectNoOC_def
  exampleRuntime_def exampleMember_def insertionSort_def asciiLower_def
  showInt_def showNat.simps digits_def padLeft_def padRight_def Let_def

lemma replicate_unfold: "0 < n \<Longrightarrow> replicate n c = c # replicate (n - 1) c"
  by (cases n) simp_all

lemmas eval_defs = render_defs example_defs exRoster_def exZed_def exStats_def replicate_unfold
  reduceAll_def reduceCrime_def recordSlot_def zeroRateInfo_def
  reduceSelected_def reduceCrimeSelected_def recordSlotSelected_def isMemberLine_def insert_commute

lemma collectEntries_set:
  "e \<in> set (collectEntries selected ids) \<longleftrightarrow>
     memberEntry.ID e \<in> set ids \<and>
     (\<exists>m. selected (memberEntry.ID e) = Some m \<and>
          e = \<lparr>memberEntry.ID = memberEntry.ID e, memberEntry.Name = Member.Name m\<rparr>)"
  by (induction ids) (auto split: option.splits)

lemma memberEntries_selected:
  assumes "e \<in> set (memberEntries rt selected)"
  shows "\<exists>m. selected (memberEntry.ID e) = Some m \<and> memberEntry.Name e = Member.Name m"
proof -
  from assms obtain m where m: "selected (memberEntry.ID e) = Some m"
    and e: "e = \<lparr>memberEntry.ID = memberEntry.ID e, memberEntry.Name = Member.Name m\<rparr>"
    unfolding memberEntries_def collectEntries_set by blast
  from e have "memberEntry.Name e = Member.Name m"
    by (metis memberEntry.select_convs(2))
  with m show ?thesis by blast
qed

lemma collectEntries_ids:
  "set ids \<subseteq> dom selected \<Longrightarrow> map memberEntry.ID (collectEntries selected ids) = ids"
  by (induction ids) (auto split: option.splits)

lemma memberEntries_ids:
  "set (rangeKeys rt) \<subseteq> dom selected \<Longrightarrow>
     map memberEntry.ID (memberEntries rt selected) = rangeKeys rt"
  by (simp add: memberEntries_def collectEntries_ids)

lemma isMemberLine_summaryLine: "isMemberLine (summaryLine m)"
  by (simp add: isMemberLine_def summaryLine_def)

lemma not_isMemberLine_positionLine: "\<not> isMemberLine (positionLine rt p st)"
  by (simp add: isMemberLine_def positionLine_def)

lemma not_isMemberLine_fixed:
  "c \<noteq> CHR ''M'' \<Longrightarrow> \<not> isMemberLine (c # cs)"
  "\<not> isMemberLine []"
  by (simp_all add: isMemberLine_def)

lemma filter_isMemberLine_difficultyLines:
  "filter isMemberLine (difficultyLines rt d positions) = []"
  by (simp add: difficultyLines_def filter_empty_conv not_isMemberLine_positionLine
      not_isMemberLine_fixed)

lemma filter_isMemberLine_memberLines:
  "filter isMemberLine (memberLines rt selected stats e)
     = [summaryLine (lookupMember selected (memberEntry.ID e))]"
  by (simp add: memberLines_def Let_def isMemberLine_summaryLine filter_concat
      filter_isMemberLine_difficultyLines not_isMemberLine_fixed comp_def split: option.splits)

lemma filter_isMemberLine_blocks:
  "filter isMemberLine (concat (map (memberLines rt selected stats) es))
     = map (\<lambda>e. summaryLine (lookupMember selected (memberEntry.ID e))) es"
  by (induction es) (simp_all add: filter_isMemberLine_memberLines)

lemma filter_isMemberLine_report:
  "filter isMemberLine (generateReportLines rt selected stats)
     = map (\<lambda>e. summaryLine (lookupMember selected (memberEntry.ID e))) (renderOrder rt selected)"
  by (simp add: generateReportLines_def filter_isMemberLine_blocks not_isMemberLine_fixed)

lemma renderOrder_selected:
  assumes "mset (renderOrder rt selected) = mset (memberEntries rt selected)"
    and "e \<in> set (renderOrder rt selected)"
  shows "\<exists>m. selected (memberEntry.ID e) = Some m \<and> memberEntry.Name e = Member.Name m"
proof -
  from assms(1) have "set (renderOrder rt selected) = set (memberEntries rt selected)"
    by (rule mset_eq_setD)
  with assms(2) show ?thesis by (simp add: memberEntries_selected)
qed

lemma entries_ids:
  assumes "distinct (rangeKeys rt)" and "set (rangeKeys rt) = dom selected"
    and "mset es = mset (memberEntries rt selected)"
  shows "mset (map memberEntry.ID es) = mset_set (dom selected)"
proof -
  have "mset (map memberEntry.ID es) = mset (map memberEntry.ID (memberEntries rt selected))"
    using assms(3) by (metis mset_map)
  also have "\<dots> = mset (rangeKeys rt)"
    using assms(2) by (simp add: memberEntries_ids)
  also have "\<dots> = mset_set (dom selected)"
    using assms(1,2) by (metis mset_set_set)
  finally show ?thesis .
qed

lemma entries_selected:
  assumes "mset es = mset (memberEntries rt selected)" and "e \<in> set es"
  shows "\<exists>m. selected (memberEntry.ID e) = Some m \<and> memberEntry.Name e = Member.Name m"
proof -
  from assms(1) have "set es = set (memberEntries rt selected)" by (rule mset_eq_setD)
  with assms(2) show ?thesis by (simp add: memberEntries_selected)
qed

lemma entries_name:
  assumes "mset es = mset (memberEntries rt selected)" and "e \<in> set es"
  shows "Member.Name (lookupMember selected (memberEntry.ID e)) = memberEntry.Name e"
  using entries_selected [OF assms] by (auto simp: lookupMember_def)

lemma membersOf_sorted:
  assumes perm: "mset es = mset (memberEntries rt selected)"
    and srt: "sorted_wrt (\<lambda>a b. \<not> key (memberEntry.Name b) < key (memberEntry.Name a)) es"
  shows "sorted_wrt (\<lambda>a b. key (Member.Name a) \<le> (key (Member.Name b) :: 'k :: linorder))
           (membersOf selected es)"
proof -
  have "sorted_wrt (\<lambda>a b. key (Member.Name (lookupMember selected (memberEntry.ID a)))
                        \<le> key (Member.Name (lookupMember selected (memberEntry.ID b)))) es"
  proof (rule sorted_wrt_mono_rel [OF _ srt])
    fix a b assume "a \<in> set es" "b \<in> set es"
      and "\<not> key (memberEntry.Name b) < key (memberEntry.Name a)"
    then show "key (Member.Name (lookupMember selected (memberEntry.ID a)))
                 \<le> key (Member.Name (lookupMember selected (memberEntry.ID b)))"
      using entries_name [OF perm] by (simp add: not_less)
  qed
  then show ?thesis by (simp add: membersOf_def sorted_wrt_map)
qed

lemma membersOf_mset:
  assumes "distinct (rangeKeys rt)" and "set (rangeKeys rt) = dom selected"
    and "mset es = mset (memberEntries rt selected)"
  shows "mset (membersOf selected es) = image_mset (lookupMember selected) (mset_set (dom selected))"
proof -
  have "mset (membersOf selected es) = image_mset (lookupMember selected) (mset (map memberEntry.ID es))"
    by (simp add: membersOf_def multiset.map_comp comp_def)
  with entries_ids [OF assms] show ?thesis by simp
qed

lemma filter_isMemberLine_printReport_main:
  "filter isMemberLine (printReport_main rt selected stats)
     = map summaryLine (membersOf selected (printOrder_main rt selected))"
  by (simp add: printReport_main_def filter_isMemberLine_blocks membersOf_def comp_def)

lemma filter_isMemberLine_generate:
  "filter isMemberLine (generateReportLines rt selected stats)
     = map summaryLine (membersOf selected (renderOrder rt selected))"
  by (simp add: filter_isMemberLine_report membersOf_def comp_def)

subsection \<open>Order of the member blocks\<close>

text \<open>
  Claim C4, as amended. Let \<open>range\<close> visit every key of the selection once, and let
  \<open>sort.Slice\<close> keep its contract for the comparison it is handed: whatever the slice,
  the result is a rearrangement of it in which no element is less than an earlier one.
  Then the report of \<open>generateReportLines\<close> is the header followed by one block per
  selected member, and its member summary lines are those of the selected members, each
  once, in ascending order of the lower-cased display name. The earlier \<open>printReport\<close>
  of \<open>src/main.go\<close> prints the summary lines of the selected members, each once, in
  ascending order of the display name as it is (upper case before lower case). Nothing
  is promised on the relative order of members whose names compare equal.
\<close>

theorem member_blocks_sorted:
  "(distinct (rangeKeys rt) \<and> set (rangeKeys rt) = dom selected \<and>
    (\<forall>xs. mset (sortSlice rt (lessByName rt) xs) = mset xs \<and>
          sorted_wrt (\<lambda>a b. \<not> lessByName rt b a) (sortSlice rt (lessByName rt) xs))
    \<longrightarrow> generateReportLines rt selected stats =
          (''Report generated at: '' @ now rt) #
          concat (map (memberLines rt selected stats) (renderOrder rt selected)) \<and>
        filter isMemberLine (generateReportLines rt selected stats) =
          map summaryLine (membersOf selected (renderOrder rt selected)) \<and>
        sorted_wrt (\<lambda>a b. toLower rt (Member.Name a) \<le> toLower rt (Member.Name b))
          (membersOf selected (renderOrder rt selected)) \<and>
        mset (membersOf selected (renderOrder rt selected)) =
          image_mset (lookupMember selected) (mset_set (dom selected)) \<and>
        mset (map memberEntry.ID (renderOrder rt selected)) = mset_set (dom selected)) \<and>
   (distinct (rangeKeys rt) \<and> set (rangeKeys rt) = dom selected \<and>
    (\<forall>xs. mset (sortSlice rt lessByRawName xs) = mset xs \<and>
          sorted_wrt (\<lambda>a b. \<not> lessByRawName b a) (sortSlice rt lessByRawName xs))
    \<longrightarrow> filter isMemberLine (printReport_main rt selected stats) =
          map summaryLine (membersOf selected (printOrder_main rt selected)) \<and>
        sorted_wrt (\<lambda>a b. Member.Name a \<le> Member.Name b)
          (membersOf selected (printOrder_main rt selected)) \<and>
        mset (membersOf selected (printOrder_main rt selected)) =
          image_mset (lookupMember selected) (mset_set (dom selected)))"
proof (intro conjI impI)
  assume a: "distinct (rangeKeys rt) \<and> set (rangeKeys rt) = dom selected \<and>
    (\<forall>xs. mset (sortSlice rt (lessByName rt) xs) = mset xs \<and>
          sorted_wrt (\<lambda>a b. \<not> lessByName rt b a) (sortSlice rt (lessByName rt) xs))"
  then have keys: "distinct (rangeKeys rt)" "set (rangeKeys rt) = dom selected" by blast+
  from a have perm: "mset (renderOrder rt selected) = mset (memberEntries rt selected)"
    unfolding renderOrder_def by blast
  from a have "sorted_wrt (\<lambda>a b. \<not> lessByName rt b a) (renderOrder rt selected)"
    unfolding renderOrder_def by blast
  then have srt: "sorted_wrt (\<lambda>a b. \<not> toLower rt (memberEntry.Name b) < toLower rt (memberEntry.Name a))
      (renderOrder rt selected)"
    by (simp add: lessByName_def)
  show "generateReportLines rt selected stats =
          (''Report generated at: '' @ now rt) #
          concat (map (memberLines rt selected stats) (renderOrder rt selected))"
    by (simp add: generateReportLines_def)
  show "filter isMemberLine (generateReportLines rt selected stats) =
          map summaryLine (membersOf selected (renderOrder rt selected))"
    by (rule filter_isMemberLine_generate)
  show "sorted_wrt (\<lambda>a b. toLower rt (Member.Name a) \<le> toLower rt (Member.Name b))
          (membersOf selected (renderOrder rt selected))"
    using perm srt by (rule membersOf_sorted)
  show "mset (membersOf selected (renderOrder rt selected)) =
          image_mset (lookupMember selected) (mset_set (dom selected))"
    using keys perm by (rule membersOf_mset)
  show "mset (map memberEntry.ID (renderOrder rt selected)) = mset_set (dom selected)"
    using keys perm by (rule entries_ids)
next
  assume a: "distinct (rangeKeys rt) \<and> set (rangeKeys rt) = dom selected \<and>
    (\<forall>xs. mset (sortSlice rt lessByRawName xs) = mset xs \<and>
          sorted_wrt (\<lambda>a b. \<not> lessByRawName b a) (sortSlice rt lessByRawName xs))"
  then have keys: "distinct (rangeKeys rt)" "set (rangeKeys rt) = dom selected" by blast+
  from a have perm: "mset (printOrder_main rt selected) = mset (memberEntries rt selected)"
    unfolding printOrder_main_def by blast
  from a have "sorted_wrt (\<lambda>a b. \<not> lessByRawName b a) (printOrder_main rt selected)"
    unfolding printOrder_main_def by blast
  then have srt: "sorted_wrt (\<lambda>a b. \<not> id (memberEntry.Name b) < id (memberEntry.Name a))
      (printOrder_main rt selected)"
    by (simp add: lessByRawName_def)
  show "filter isMemberLine (printReport_main rt selected stats) =
          map summaryLine (membersOf selected (printOrder_main rt selected))"
    by (rule filter_isMemberLine_printReport_main)
  show "sorted_wrt (\<lambda>a b. Member.Name a \<le> Member.Name b)
          (membersOf selected (printOrder_main rt selected))"
    using membersOf_sorted [OF perm srt] by simp
  show "mset (membersOf selected (printOrder_main rt selected)) =
          image_mset (lookupMember selected) (mset_set (dom selected))"
    using keys perm by (rule membersOf_mset)
qed

lemma memberLines_start:
  "\<exists>rest. memberLines rt selected stats e
     = [] # summaryLine (lookupMember selected (memberEntry.ID e)) # rest"
  by (simp add: memberLines_def Let_def)

lemma summaryLine_not_blank: "summaryLine m \<noteq> []"
  by (simp add: summaryLine_def)

subsection \<open>The blank line\<close>

text \<open>
  Claim C5, as amended. Every member block starts with a blank line followed by the
  member summary line, which is never blank; so for a non-empty selection the first line
  after the header is blank and the second one is the summary line of the first member.
\<close>

theorem blank_line_before_every_member:
  "(\<exists>rest. memberLines rt selected stats e
      = [] # summaryLine (lookupMember selected (memberEntry.ID e)) # rest) \<and>
   summaryLine m \<noteq> [] \<and>
   (dom selected \<noteq> {} \<and> set (rangeKeys rt) = dom selected \<and>
    mset (renderOrder rt selected) = mset (memberEntries rt selected)
    \<longrightarrow> (\<exists>first others.
           renderOrder rt selected = first # others \<and>
           take 3 (generateReportLines rt selected stats) =
             [''Report generated at: '' @ now rt, [],
              summaryLine (lookupMember selected (memberEntry.ID first))]))"
proof (intro conjI impI)
  show "\<exists>rest. memberLines rt selected stats e
      = [] # summaryLine (lookupMember selected (memberEntry.ID e)) # rest"
    by (rule memberLines_start)
  show "summaryLine m \<noteq> []" by (rule summaryLine_not_blank)
next
  assume a: "dom selected \<noteq> {} \<and> set (rangeKeys rt) = dom selected \<and>
    mset (renderOrder rt selected) = mset (memberEntries rt selected)"
  then have "set (rangeKeys rt) \<noteq> {}" by simp
  then have "rangeKeys rt \<noteq> []" by (simp del: set_empty2)
  moreover from a have "map memberEntry.ID (memberEntries rt selected) = rangeKeys rt"
    by (simp add: memberEntries_ids)
  ultimately have "memberEntries rt selected \<noteq> []" by auto
  with a have "renderOrder rt selected \<noteq> []" by (metis mset_zero_iff)
  then obtain first others where o: "renderOrder rt selected = first # others"
    by (cases "renderOrder rt selected") auto
  obtain rest where "memberLines rt selected stats first
      = [] # summaryLine (lookupMember selected (memberEntry.ID first)) # rest"
    using memberLines_start by blast
  with o have "take 3 (generateReportLines rt selected stats) =
             [''Report generated at: '' @ now rt, [],
              summaryLine (lookupMember selected (memberEntry.ID first))]"
    by (simp add: generateReportLines_def)
  with o show "\<exists>first others.
           renderOrder rt selected = first # others \<and>
           take 3 (generateReportLines rt selected stats) =
             [''Report generated at: '' @ now rt, [],
              summaryLine (lookupMember selected (memberEntry.ID first))]"
    by blast
qed

lemma positionLine_in_difficultyLines:
  assumes "positions p = Some st" and "finite (dom positions)"
  shows "positionLine rt p st \<in> set (difficultyLines rt d positions)"
proof -
  from assms have "p \<in> set (sorted_list_of_set (dom positions))" by auto
  then have "positionLine rt p (case positions p of None \<Rightarrow> zeroRateInfo | Some st \<Rightarrow> st)
      \<in> set (difficultyLines rt d positions)"
    unfolding difficultyLines_def by (simp del: set_sorted_list_of_set)
  with assms(1) show ?thesis by simp
qed

lemma positionLine_in_memberLines:
  assumes "stats (memberEntry.ID e) = Some memberStats" and "memberStats d = Some positions"
    and "positions p = Some st" and "finite (dom memberStats)" and "finite (dom positions)"
  shows "positionLine rt p st \<in> set (memberLines rt selected stats e)"
proof -
  from assms(2,4) have "d \<in> set (sorted_list_of_set (dom memberStats))" by auto
  moreover have "positionLine rt p st \<in> set (difficultyLines rt d positions)"
    using assms(3,5) by (rule positionLine_in_difficultyLines)
  ultimately show ?thesis
    using assms(1,2) unfolding memberLines_def Let_def
    by (auto simp del: set_sorted_list_of_set intro!: bexI [of _ d])
qed

lemma positionLine_in_report:
  assumes "uid \<in> set (rangeKeys rt)" and "selected uid = Some m"
    and "mset (renderOrder rt selected) = mset (memberEntries rt selected)"
    and "stats uid = Some memberStats" and "memberStats d = Some positions"
    and "positions p = Some st" and "finite (dom memberStats)" and "finite (dom positions)"
  shows "positionLine rt p st \<in> set (generateReportLines rt selected stats)"
proof -
  let ?e = "\<lparr>memberEntry.ID = uid, memberEntry.Name = Member.Name m\<rparr>"
  have "?e \<in> set (memberEntries rt selected)"
    unfolding memberEntries_def collectEntries_set using assms(1,2) by simp
  with assms(3) have e: "?e \<in> set (renderOrder rt selected)"
    by (metis mset_eq_setD)
  have "positionLine rt p st \<in> set (memberLines rt selected stats ?e)"
    using assms(4-8) by (intro positionLine_in_memberLines) simp_all
  with e show ?thesis
    unfolding generateReportLines_def by auto
qed

lemma showNat_0: "showNat 0 = ''0''"
  by (simp add: showNat.simps digits_def)

subsection \<open>Position lines\<close>

text \<open>
  Claim C6. An entry whose stored pass rate is 0 is rendered as the padded position and a
  dash, which differs from the percentage form; an entry with a nonzero pass rate is
  rendered as the padded position, the rate as an integer in a field of three, a percent
  sign and the stored execution time; and the line of every entry stored for a selected
  member is one of the lines of the report.
\<close>

theorem zero_rate_placeholder:
  "(Rate st0 = 0 \<longrightarrow>
      positionLine rt p0 st0 = ''    '' @ padRight 15 p0 @ '' -'' \<and>
      positionLine rt p0 st0 \<noteq>
        ''    '' @ padRight 15 p0 @ '' '' @ padLeft 3 (showInt (Rate st0)) @ ''% (executed_at ''
          @ formatUnix rt (RateInfo.ExecutedAt st0) @ '')'') \<and>
   (Rate st1 \<noteq> 0 \<longrightarrow>
      positionLine rt p1 st1 =
        ''    '' @ padRight 15 p1 @ '' '' @ padLeft 3 (showInt (Rate st1)) @ ''% (executed_at ''
          @ formatUnix rt (RateInfo.ExecutedAt st1) @ '')'') \<and>
   (uid \<in> set (rangeKeys rt) \<and> selected uid = Some m \<and>
    mset (renderOrder rt selected) = mset (memberEntries rt selected) \<and>
    stats uid = Some memberStats \<and> memberStats d = Some positions \<and> positions p = Some st \<and>
    finite (dom memberStats) \<and> finite (dom positions)
    \<longrightarrow> positionLine rt p st \<in> set (generateReportLines rt selected stats))"
proof (intro conjI impI)
  assume z: "Rate st0 = 0"
  then show "positionLine rt p0 st0 = ''    '' @ padRight 15 p0 @ '' -''"
    by (simp add: positionLine_def)
  moreover have "padLeft 3 (showInt 0) = ''  0''"
    by (simp add: padLeft_def showInt_def showNat_0 replicate_unfold)
  ultimately show "positionLine rt p0 st0 \<noteq>
        ''    '' @ padRight 15 p0 @ '' '' @ padLeft 3 (showInt (Rate st0)) @ ''% (executed_at ''
          @ formatUnix rt (RateInfo.ExecutedAt st0) @ '')''"
    using z by simp
next
  assume "Rate st1 \<noteq> 0"
  then show "positionLine rt p1 st1 =
        ''    '' @ padRight 15 p1 @ '' '' @ padLeft 3 (showInt (Rate st1)) @ ''% (executed_at ''
          @ formatUnix rt (RateInfo.ExecutedAt st1) @ '')''"
    by (simp add: positionLine_def)
next
  assume "uid \<in> set (rangeKeys rt) \<and> selected uid = Some m \<and>
    mset (renderOrder rt selected) = mset (memberEntries rt selected) \<and>
    stats uid = Some memberStats \<and> memberStats d = Some positions \<and> positions p = Some st \<and>
    finite (dom memberStats) \<and> finite (dom positions)"
  then show "positionLine rt p st \<in> set (generateReportLines rt selected stats)"
    using positionLine_in_report [of uid rt selected m stats memberStats d positions p st]
    by blast
qed

lemma agreeOn_recordSlot:
  assumes "agreeOn selected A B"
  shows "agreeOn selected (recordSlot crime A slot) (recordSlotSelected selected crime B slot)"
  using assms unfolding agreeOn_def recordSlot_def recordSlotSelected_def Let_def
  by auto

lemma agreeOn_slots:
  "agreeOn selected A B \<Longrightarrow>
     agreeOn selected (foldl (recordSlot crime) A slots)
       (foldl (recordSlotSelected selected crime) B slots)"
  by (induction slots arbitrary: A B) (simp_all add: agreeOn_recordSlot)

lemma agreeOn_crimes:
  "agreeOn selected A B \<Longrightarrow>
     agreeOn selected (foldl reduceCrime A crimes) (foldl (reduceCrimeSelected selected) B crimes)"
  by (induction crimes arbitrary: A B)
     (simp_all add: reduceCrime_def reduceCrimeSelected_def agreeOn_slots)

lemma agreeOn_reduce: "agreeOn selected (reduceAll crimes) (reduceSelected selected crimes)"
  unfolding reduceAll_def reduceSelected_def
  by (rule agreeOn_crimes) (simp add: agreeOn_def)

lemma memberLines_agree:
  assumes "agreeOn selected A B" and "selected (memberEntry.ID e) \<noteq> None"
  shows "memberLines rt selected A e = memberLines rt selected B e"
  using assms by (simp add: memberLines_def agreeOn_def)

subsection \<open>The membership filter\<close>

text \<open>
  Claim C10. Rendering a selection from the index built over all slots gives the same
  lines as rendering it from the index built over the slots of selected members only
  (the loop of the earlier \<open>main\<close>), whenever \<open>sort.Slice\<close> returns a
  rearrangement of the entries.
\<close>

theorem filter_is_unobservable:
  assumes "mset (renderOrder rt selected) = mset (memberEntries rt selected)"
  shows "generateReportLines rt selected (reduceAll crimes)
       = generateReportLines rt selected (reduceSelected selected crimes)"
proof -
  have "memberLines rt selected (reduceAll crimes) e
      = memberLines rt selected (reduceSelected selected crimes) e"
    if "e \<in> set (renderOrder rt selected)" for e
  proof (rule memberLines_agree)
    show "agreeOn selected (reduceAll crimes) (reduceSelected selected crimes)"
      by (rule agreeOn_reduce)
    from renderOrder_selected [OF assms that]
    show "selected (memberEntry.ID e) \<noteq> None" by auto
  qed
  then show ?thesis
    unfolding generateReportLines_def by (simp cong: map_cong)
qed

subsection \<open>Concrete reports\<close>

text \<open>The insertion sort of the sample runtime keeps the contract of \<open>sort.Slice\<close>.\<close>

lemma mset_insertionStep: "mset (insertionStep lt x ys) = add_mset x (mset ys)"
  by (induction ys) simp_all

lemma set_insertionStep: "set (insertionStep lt x ys) = insert x (set ys)"
  by (induction ys) auto

lemma mset_insertion_foldl:
  "mset (foldl (\<lambda>acc x. insertionStep lt x acc) acc xs) = mset acc + mset xs"
  by (induction xs arbitrary: acc) (simp_all add: mset_insertionStep)

lemma mset_insertionSort: "mset (insertionSort lt xs) = mset xs"
  by (simp add: insertionSort_def mset_insertion_foldl)

lemma sorted_insertionStep:
  fixes key :: "'a \<Rightarrow> 'k :: linorder"
  assumes "sorted_wrt (\<lambda>a b. \<not> key b < key a) ys"
  shows "sorted_wrt (\<lambda>a b. \<not> key b < key a) (insertionStep (\<lambda>a b. key a < key b) x ys)"
  using assms
proof (induction ys)
  case Nil
  show ?case by simp
next
  case (Cons y ys)
  show ?case
  proof (cases "key x < key y")
    case True
    with Cons.prems show ?thesis by (auto simp: not_less)
  next
    case False
    with Cons show ?thesis by (auto simp: set_insertionStep)
  qed
qed

lemma sorted_insertion_foldl:
  fixes key :: "'a \<Rightarrow> 'k :: linorder"
  assumes "sorted_wrt (\<lambda>a b. \<not> key b < key a) acc"
  shows "sorted_wrt (\<lambda>a b. \<not> key b < key a)
           (foldl (\<lambda>acc x. insertionStep (\<lambda>a b. key a < key b) x acc) acc xs)"
  using assms by (induction xs arbitrary: acc) (simp_all add: sorted_insertionStep)

lemma sorted_insertionSort:
  fixes key :: "'a \<Rightarrow> 'k :: linorder"
  shows "sorted_wrt (\<lambda>a b. \<not> key b < key a) (insertionSort (\<lambda>a b. key a < key b) xs)"
  by (simp add: insertionSort_def sorted_insertion_foldl)

lemma exampleRuntime_sorts_by_name:
  "mset (sortSlice (exampleRuntime ks) (lessByName (exampleRuntime ks)) xs) = mset xs \<and>
   sorted_wrt (\<lambda>a b. \<not> lessByName (exampleRuntime ks) b a)
     (sortSlice (exampleRuntime ks) (lessByName (exampleRuntime ks)) xs)"
proof -
  have l: "lessByName (exampleRuntime ks)
      = (\<lambda>a b. map asciiLower (memberEntry.Name a) < map asciiLower (memberEntry.Name b))"
    by (intro ext) (simp add: lessByName_def exampleRuntime_def)
  have s: "sortSlice (exampleRuntime ks) = insertionSort" by (simp add: exampleRuntime_def)
  show ?thesis
    unfolding l s
    using sorted_insertionSort [of "\<lambda>e. map asciiLower (memberEntry.Name e)" xs]
    by (simp add: mset_insertionSort)
qed

lemma exampleRuntime_sorts_by_raw_name:
  "mset (sortSlice (exampleRuntime ks) lessByRawName xs) = mset xs \<and>
   sorted_wrt (\<lambda>a b. \<not> lessByRawName b a) (sortSlice (exampleRuntime ks) lessByRawName xs)"
proof -
  have l: "lessByRawName = (\<lambda>a b. memberEntry.Name a < memberEntry.Name b)"
    by (intro ext) (simp add: lessByRawName_def)
  have s: "sortSlice (exampleRuntime ks) = insertionSort" by (simp add: exampleRuntime_def)
  show ?thesis
    unfolding l s
    using sorted_insertionSort [of memberEntry.Name xs]
    by (simp add: mset_insertionSort)
qed

lemmas order_defs = eval_defs membersOf_def printReport_main_def printOrder_main_def
  lessByRawName_def

text \<open>
  C4 as amended, on a roster of three with the keys visited in the order 2, 1, 3: the
  later program puts \<open>alice\<close> first, the earlier one \<open>Bob\<close>.
\<close>

theorem member_blocks_sorted_witness:
  "distinct (rangeKeys (exampleRuntime [2, 1, 3])) \<and>
   set (rangeKeys (exampleRuntime [2, 1, 3])) = dom (selectAll exRoster) \<and>
   memberEntries (exampleRuntime [2, 1, 3]) (selectAll exRoster) =
     [\<lparr>memberEntry.ID = 2, memberEntry.Name = ''Bob''\<rparr>,
      \<lparr>memberEntry.ID = 1, memberEntry.Name = ''bob''\<rparr>,
      \<lparr>memberEntry.ID = 3, memberEntry.Name = ''alice''\<rparr>] \<and>
   renderOrder (exampleRuntime [2, 1, 3]) (selectAll exRoster) =
     [\<lparr>memberEntry.ID = 3, memberEntry.Name = ''alice''\<rparr>,
      \<lparr>memberEntry.ID = 2, memberEntry.Name = ''Bob''\<rparr>,
      \<lparr>memberEntry.ID = 1, memberEntry.Name = ''bob''\<rparr>] \<and>
   filter isMemberLine (generateReportLines (exampleRuntime [2, 1, 3]) (selectAll exRoster) Map.empty) =
     [''Member: alice (3) - Last seen: Online (2 minutes ago)'',
      ''Member: Bob (2) - Last seen: Online (2 minutes ago)'',
      ''Member: bob (1) - Last seen: Online (2 minutes ago)''] \<and>
   printOrder_main (exampleRuntime [2, 1, 3]) (selectAll exRoster) =
     [\<lparr>memberEntry.ID = 2, memberEntry.Name = ''Bob''\<rparr>,
      \<lparr>memberEntry.ID = 3, memberEntry.Name = ''alice''\<rparr>,
      \<lparr>memberEntry.ID = 1, memberEntry.Name = ''bob''\<rparr>] \<and>
   filter isMemberLine (printReport_main (exampleRuntime [2, 1, 3]) (selectAll exRoster) Map.empty) =
     [''Member: Bob (2) - Last seen: Online (2 minutes ago)'',
      ''Member: alice (3) - Last seen: Online (2 minutes ago)'',
      ''Member: bob (1) - Last seen: Online (2 minutes ago)'']"
proof -
  let ?rt = "exampleRuntime [2, 1, 3]"
  have keys: "distinct (rangeKeys ?rt)" "set (rangeKeys ?rt) = dom (selectAll exRoster)"
    by (simp_all add: eval_defs)
  have byName: "\<forall>xs. mset (sortSlice ?rt (lessByName ?rt) xs) = mset xs \<and>
      sorted_wrt (\<lambda>a b. \<not> lessByName ?rt b a) (sortSlice ?rt (lessByName ?rt) xs)"
    using exampleRuntime_sorts_by_name by blast
  have byRaw: "\<forall>xs. mset (sortSlice ?rt lessByRawName xs) = mset xs \<and>
      sorted_wrt (\<lambda>a b. \<not> lessByRawName b a) (sortSlice ?rt lessByRawName xs)"
    using exampleRuntime_sorts_by_raw_name by blast
  from member_blocks_sorted [where rt = ?rt and selected = "selectAll exRoster"
      and stats = Map.empty] keys byName byRaw
  have "filter isMemberLine (generateReportLines ?rt (selectAll exRoster) Map.empty) =
          map summaryLine (membersOf (selectAll exRoster) (renderOrder ?rt (selectAll exRoster))) \<and>
        filter isMemberLine (printReport_main ?rt (selectAll exRoster) Map.empty) =
          map summaryLine (membersOf (selectAll exRoster) (printOrder_main ?rt (selectAll exRoster)))"
    by blast
  then show ?thesis
    by (simp add: order_defs)
qed

text \<open>
  C4 as first stated fails. The roster lists \<open>bob\<close> before \<open>Bob\<close>, the names
  are equal once lower-cased, \<open>range\<close> visits key 2 before key 1 and the sort leaves
  equal entries where they are, so the block of \<open>Bob\<close> comes first. And the earlier
  \<open>printReport\<close> prints \<open>Bob\<close> before \<open>alice\<close>, against the
  case-insensitive order.
\<close>

theorem member_blocks_sorted_counterexample:
  "generateReportLines (exampleRuntime [2, 1])
     (selectAll [exampleMember 1 ''bob'' False, exampleMember 2 ''Bob'' True]) Map.empty =
     [''Report generated at: 2025-06-01T12:00:00Z'',
      '''',
      ''Member: Bob (2) - Last seen: Online (2 minutes ago)'',
      ''  No historical OC participation recorded.'',
      '''',
      ''Member: bob (1) - Last seen: Online (2 minutes ago)'',
      ''  No historical OC participation recorded.''] \<and>
   toLower (exampleRuntime [2, 1]) ''bob'' = toLower (exampleRuntime [2, 1]) ''Bob'' \<and>
   distinct (rangeKeys (exampleRuntime [2, 1])) \<and>
   set (rangeKeys (exampleRuntime [2, 1]))
     = dom (selectAll [exampleMember 1 ''bob'' False, exampleMember 2 ''Bob'' True]) \<and>
   printReport_main (exampleRuntime [3, 2])
     (selectAll [exampleMember 3 ''alice'' False, exampleMember 2 ''Bob'' True]) Map.empty =
     ['''',
      ''Member: Bob (2) - Last seen: Online (2 minutes ago)'',
      ''  No historical OC participation recorded.'',
      '''',
      ''Member: alice (3) - Last seen: Online (2 minutes ago)'',
      ''  No historical OC participation recorded.''] \<and>
   toLower (exampleRuntime [3, 2]) ''alice'' < toLower (exampleRuntime [3, 2]) ''Bob''"
  by (simp add: order_defs)

text \<open>C5 as amended, on a selection of one member.\<close>

theorem blank_line_before_every_member_witness:
  "dom (selectAll [exampleMember 1 ''alice'' False]) \<noteq> {} \<and>
   set (rangeKeys (exampleRuntime [1])) = dom (selectAll [exampleMember 1 ''alice'' False]) \<and>
   mset (renderOrder (exampleRuntime [1]) (selectAll [exampleMember 1 ''alice'' False]))
     = mset (memberEntries (exampleRuntime [1]) (selectAll [exampleMember 1 ''alice'' False])) \<and>
   take 3 (generateReportLines (exampleRuntime [1]) (selectAll [exampleMember 1 ''alice'' False])
             Map.empty) =
     [''Report generated at: 2025-06-01T12:00:00Z'',
      '''',
      ''Member: alice (1) - Last seen: Online (2 minutes ago)'']"
  using blank_line_before_every_member [where rt = "exampleRuntime [1]"
      and selected = "selectAll [exampleMember 1 ''alice'' False]" and stats = Map.empty
      and e = "\<lparr>memberEntry.ID = 1, memberEntry.Name = ''alice''\<rparr>"
      and m = "exampleMember 1 ''alice'' False"]
  by (simp add: eval_defs)

text \<open>
  C5 as first stated fails: the line after the header is blank, and the summary line of
  the first member comes after it.
\<close>

theorem blank_line_before_every_member_counterexample:
  "generateReportLines (exampleRuntime [1]) (selectAll [exampleMember 1 ''alice'' False])
     Map.empty =
     [''Report generated at: 2025-06-01T12:00:00Z'',
      '''',
      ''Member: alice (1) - Last seen: Online (2 minutes ago)'',
      ''  No historical OC participation recorded.''] \<and>
   summaryLine (exampleMember 1 ''alice'' False)
     = ''Member: alice (1) - Last seen: Online (2 minutes ago)''"
  by (simp add: eval_defs)

text \<open>C6 on an index with a zero entry and a nonzero one.\<close>

theorem zero_rate_placeholder_witness:
  "positionLine (exampleRuntime [7]) ''Driver'' \<lparr>Rate = 0, RateInfo.ExecutedAt = 0\<rparr>
     = ''    Driver          -'' \<and>
   positionLine (exampleRuntime [7]) ''Muscle'' \<lparr>Rate = 70, RateInfo.ExecutedAt = 200\<rparr>
     = ''    Muscle           70% (executed_at unix:200)'' \<and>
   selectAll exZed 7 = Some (exampleMember 7 ''Zed'' False) \<and>
   exStats 7 = Some [3 \<mapsto> [''Muscle'' \<mapsto> \<lparr>Rate = 70, RateInfo.ExecutedAt = 200\<rparr>,
                              ''Driver'' \<mapsto> \<lparr>Rate = 0, RateInfo.ExecutedAt = 0\<rparr>]] \<and>
   mset (renderOrder (exampleRuntime [7]) (selectAll exZed))
     = mset (memberEntries (exampleRuntime [7]) (selectAll exZed)) \<and>
   entryAt exStats 7 3 ''Driver'' = Some \<lparr>Rate = 0, RateInfo.ExecutedAt = 0\<rparr> \<and>
   ''    Driver          -'' \<in> set (generateReportLines (exampleRuntime [7]) (selectAll exZed) exStats) \<and>
   generateReportLines (exampleRuntime [7]) (selectAll exZed) exStats =
     [''Report generated at: 2025-06-01T12:00:00Z'',
      '''',
      ''Member: Zed (7) - Last seen: Online (2 minutes ago)'',
      ''  Difficulty 3:'',
      ''    Driver          -'',
      ''    Muscle           70% (executed_at unix:200)'']"
  using zero_rate_placeholder [where ?st0.0 = "\<lparr>Rate = 0, RateInfo.ExecutedAt = 0\<rparr>"
      and rt = "exampleRuntime [7]" and ?p0.0 = "''Driver''"
      and ?st1.0 = "\<lparr>Rate = 70, RateInfo.ExecutedAt = 200\<rparr>" and ?p1.0 = "''Muscle''"
      and uid = 7 and selected = "selectAll exZed" and m = "exampleMember 7 ''Zed'' False"
      and stats = exStats
      and memberStats = "[3 \<mapsto> [''Muscle'' \<mapsto> \<lparr>Rate = 70, RateInfo.ExecutedAt = 200\<rparr>,
                                ''Driver'' \<mapsto> \<lparr>Rate = 0, RateInfo.ExecutedAt = 0\<rparr>]]"
      and d = 3
      and positions = "[''Muscle'' \<mapsto> \<lparr>Rate = 70, RateInfo.ExecutedAt = 200\<rparr>,
                        ''Driver'' \<mapsto> \<lparr>Rate = 0, RateInfo.ExecutedAt = 0\<rparr>]"
      and p = "''Driver''" and st = "\<lparr>Rate = 0, RateInfo.ExecutedAt = 0\<rparr>"]
  by (simp add: eval_defs entryAt_def)

text \<open>
  C10 on a history that holds a crime of member 8, who is not selected: the two indexes
  differ at 8 and the reports are equal.
\<close>

theorem filter_is_unobservable_witness:
  "mset (renderOrder (exampleRuntime [7]) (selectAll exZed))
     = mset (memberEntries (exampleRuntime [7]) (selectAll exZed)) \<and>
   generateReportLines (exampleRuntime [7]) (selectAll exZed) (reduceAll [exA, exO, exB])
     = generateReportLines (exampleRuntime [7]) (selectAll exZed)
         (reduceSelected (selectAll exZed) [exA, exO, exB]) \<and>
   reduceAll [exA, exO, exB] 8 \<noteq> None \<and>
   reduceSelected (selectAll exZed) [exA, exO, exB] 8 = None"
proof -
  have perm: "mset (renderOrder (exampleRuntime [7]) (selectAll exZed))
     = mset (memberEntries (exampleRuntime [7]) (selectAll exZed))"
    by (simp add: eval_defs)
  from filter_is_unobservable [OF perm, of "[exA, exO, exB]"] perm show ?thesis
    by (simp add: eval_defs)
qed

section \<open>Properties of a pass and of the scheduler\<close>

lemma fetchLoop_requests:
  assumes "fetchLoop get n offset all reqs = Some y"
  shows "\<exists>more. fst y = reqs @ offset # more"
proof (rule fetchLoop.raw_induct
    [where P = "\<lambda>get n offset all reqs y. \<exists>more. fst y = reqs @ offset # more", OF _ assms])
  fix f :: "historySource \<Rightarrow> nat \<Rightarrow> 64 word \<Rightarrow> Crime list \<Rightarrow> 64 word list
      \<Rightarrow> (64 word list \<times> (goError + Crime list)) option"
    and get n offset all reqs y
  assume ih: "\<And>get n offset all reqs y. f get n offset all reqs = Some y
      \<Longrightarrow> \<exists>more. fst y = reqs @ offset # more"
    and eq: "(case get n offset of
        Inl err \<Rightarrow> Some (reqs @ [offset], Inl err)
      | Inr page \<Rightarrow>
          (let all' = all @ page in
           if length page < pageSize then Some (reqs @ [offset], Inr all')
           else f get (Suc n) (offset + of_nat pageSize) all' (reqs @ [offset]))) = Some y"
  show "\<exists>more. fst y = reqs @ offset # more"
  proof (cases "get n offset")
    case (Inl err)
    with eq show ?thesis by auto
  next
    case (Inr page)
    show ?thesis
    proof (cases "length page < pageSize")
      case True
      with Inr eq show ?thesis by (auto simp: Let_def)
    next
      case False
      with Inr eq
      have "f get (Suc n) (offset + of_nat pageSize) (all @ page) (reqs @ [offset]) = Some y"
        by (simp add: Let_def)
      from ih [OF this] obtain more
        where "fst y = (reqs @ [offset]) @ (offset + of_nat pageSize) # more" by blast
      then show ?thesis by simp
    qed
  qed
qed

lemma fetchAllCrimes_first_request:
  assumes "fetchAllCrimes get = Some (offs, res)"
  shows "\<exists>more. offs = 0 # more"
  using fetchLoop_requests [of get 0 0 "[]" "[]" "(offs, res)"] assms
  by (simp add: fetchAllCrimes_def)

lemma runReports_roster_failure:
  "membersResponse env = Inl err \<Longrightarrow>
     runReports cfg env = Some ([FetchMembers, LogError ''fetch members'' err], Returned)"
  by (simp add: runReports_def)

lemma runReports_short_circuit:
  assumes "membersResponse env = Inr members" and "\<not> bothFlag cfg"
    and "dom (passSelection cfg members) = {}"
  shows "runReports cfg env =
           Some ([FetchMembers, Println ''No matching faction members found.''], Returned)"
  using assms by (simp add: runReports_def Let_def)

lemma runReports_fetches:
  assumes "membersResponse env = Inr members"
    and "bothFlag cfg \<or> dom (passSelection cfg members) \<noteq> {}"
  shows "runReports cfg env =
     (case fetchAllCrimes (crimesSource env) of
        None \<Rightarrow> None
      | Some (offsets, Inl err) \<Rightarrow>
          Some (FetchMembers # map FetchCrimes offsets @ [LogError ''fetch crimes'' err], Returned)
      | Some (offsets, Inr crimes) \<Rightarrow>
          (case emitReports cfg env (passSelection cfg members) (selectAll members)
                  (selectNoOC members) (reduceAll crimes) of
             (evs, out) \<Rightarrow> Some (FetchMembers # map FetchCrimes offsets @ evs, out)))"
  using assms by (auto simp: runReports_def Let_def)

subsection \<open>The empty selection\<close>

text \<open>
  Claim C7. In a single-mode pass whose selection is empty, the pass prints the message
  that no matching members were found and returns: no request for the history is made and
  no report line is produced. In "both" mode with an empty not-in-OC selection, the pass
  goes on to the history fetch: whenever that fetch ends, its requests, the first one at
  offset 0, follow the roster request in the trace of the pass.
\<close>

theorem empty_selection_short_circuit:
  "(\<not> bothFlag cfg \<and> membersResponse env = Inr members \<and>
    dom (if allFlag cfg then selectAll members else selectNoOC members) = {}
    \<longrightarrow> runReports cfg env =
          Some ([FetchMembers, Println ''No matching faction members found.''], Returned)) \<and>
   (bothFlag cfg2 \<and> membersResponse env2 = Inr members2 \<and> dom (selectNoOC members2) = {} \<and>
    fetchAllCrimes (crimesSource env2) = Some (offsets, res)
    \<longrightarrow> (\<exists>more evs out.
           offsets = 0 # more \<and>
           runReports cfg2 env2 = Some (FetchMembers # map FetchCrimes offsets @ evs, out)))"
proof (intro conjI impI)
  assume "\<not> bothFlag cfg \<and> membersResponse env = Inr members \<and>
    dom (if allFlag cfg then selectAll members else selectNoOC members) = {}"
  then show "runReports cfg env =
          Some ([FetchMembers, Println ''No matching faction members found.''], Returned)"
    using runReports_short_circuit [of env members cfg] by (simp add: passSelection_def)
next
  assume a: "bothFlag cfg2 \<and> membersResponse env2 = Inr members2 \<and> dom (selectNoOC members2) = {} \<and>
    fetchAllCrimes (crimesSource env2) = Some (offsets, res)"
  then obtain more where more: "offsets = 0 # more"
    using fetchAllCrimes_first_request by blast
  from a have b: "bothFlag cfg2" and m: "membersResponse env2 = Inr members2"
    and f: "fetchAllCrimes (crimesSource env2) = Some (offsets, res)" by blast+
  have "runReports cfg2 env2 =
     (case res of
        Inl err \<Rightarrow>
          Some (FetchMembers # map FetchCrimes offsets @ [LogError ''fetch crimes'' err], Returned)
      | Inr crimes \<Rightarrow>
          (case emitReports cfg2 env2 (passSelection cfg2 members2) (selectAll members2)
                  (selectNoOC members2) (reduceAll crimes) of
             (evs, out) \<Rightarrow> Some (FetchMembers # map FetchCrimes offsets @ evs, out)))"
    using runReports_fetches [OF m, of cfg2] b f by simp
  then have "\<exists>evs out. runReports cfg2 env2 = Some (FetchMembers # map FetchCrimes offsets @ evs, out)"
    by (cases res) (auto split: prod.splits)
  with more show "\<exists>more evs out.
           offsets = 0 # more \<and>
           runReports cfg2 env2 = Some (FetchMembers # map FetchCrimes offsets @ evs, out)"
    by blast
qed

lemma runPasses_append_returned:
  assumes "runPasses cfg before = Some (trs, Returned)"
  shows "runPasses cfg (before @ rest) =
           (case runPasses cfg rest of None \<Rightarrow> None | Some (trs', out) \<Rightarrow> Some (trs @ trs', out))"
  using assms
proof (induction before arbitrary: trs)
  case Nil
  then show ?case by (auto split: option.splits)
next
  case (Cons env before)
  from Cons.prems obtain evs trs0 where evs: "runReports cfg env = Some (evs, Returned)"
    and rest: "runPasses cfg before = Some (trs0, Returned)" and trs: "trs = evs # trs0"
    by (auto split: option.splits outcome.splits prod.splits)
  from Cons.IH [OF rest] evs trs show ?case
    by (auto split: option.splits)
qed

lemma mainLoop_after_failure:
  assumes ivl: "0 < interval cfg"
    and shape: "first # ticks = before @ [bad, later]"
    and before: "runPasses cfg before = Some (trs, Returned)"
    and bad: "runReports cfg bad = Some (evsBad, Returned)"
    and nxt: "runReports cfg later = Some (evsNext, out)"
  shows "mainLoop cfg first ticks = Some (trs @ [evsBad, evsNext], out)"
proof -
  have "runPasses cfg [bad, later] = Some ([evsBad, evsNext], out)"
    using bad nxt by (cases out) simp_all
  with before have "runPasses cfg (before @ [bad, later]) = Some (trs @ [evsBad, evsNext], out)"
    by (simp add: runPasses_append_returned)
  with ivl shape show ?thesis by (simp add: mainLoop_def)
qed

subsection \<open>A failed fetch ends the pass, not the process\<close>

text \<open>
  Claim C8. A pass whose roster fetch fails logs the error and returns; a pass whose
  history fetch fails logs the error after its requests and returns; neither puts out any
  line or row of a report. When the interval is positive and such a pass follows passes
  that returned, the pass of the next tick is run in full: the trace of the loop is the
  traces of the earlier passes, of the failed pass and of the next pass, in this order.
\<close>

theorem fetch_failure_aborts_pass_only:
  "(membersResponse env = Inl err
    \<longrightarrow> runReports cfg env = Some ([FetchMembers, LogError ''fetch members'' err], Returned)) \<and>
   (membersResponse env2 = Inr members \<and>
    (bothFlag cfg \<or> dom (passSelection cfg members) \<noteq> {}) \<and>
    fetchAllCrimes (crimesSource env2) = Some (offsets, Inl err2)
    \<longrightarrow> runReports cfg env2 =
          Some (FetchMembers # map FetchCrimes offsets @ [LogError ''fetch crimes'' err2], Returned)) \<and>
   (0 < interval cfg \<and> first # ticks = before @ [bad, later] \<and>
    runPasses cfg before = Some (trs, Returned) \<and>
    (membersResponse bad = Inl err3 \<or>
     membersResponse bad = Inr members3 \<and>
     (bothFlag cfg \<or> dom (passSelection cfg members3) \<noteq> {}) \<and>
     fetchAllCrimes (crimesSource bad) = Some (offsets3, Inl err3)) \<and>
    runReports cfg later = Some (evsNext, out)
    \<longrightarrow> (\<exists>evsBad.
           runReports cfg bad = Some (evsBad, Returned) \<and>
           filter isReportOutput evsBad = [] \<and>
           mainLoop cfg first ticks = Some (trs @ [evsBad, evsNext], out)))"
proof (intro conjI impI)
  assume "membersResponse env = Inl err"
  then show "runReports cfg env = Some ([FetchMembers, LogError ''fetch members'' err], Returned)"
    by (rule runReports_roster_failure)
next
  assume "membersResponse env2 = Inr members \<and>
    (bothFlag cfg \<or> dom (passSelection cfg members) \<noteq> {}) \<and>
    fetchAllCrimes (crimesSource env2) = Some (offsets, Inl err2)"
  then show "runReports cfg env2 =
          Some (FetchMembers # map FetchCrimes offsets @ [LogError ''fetch crimes'' err2], Returned)"
    using runReports_fetches [of env2 members cfg] by simp
next
  assume a: "0 < interval cfg \<and> first # ticks = before @ [bad, later] \<and>
    runPasses cfg before = Some (trs, Returned) \<and>
    (membersResponse bad = Inl err3 \<or>
     membersResponse bad = Inr members3 \<and>
     (bothFlag cfg \<or> dom (passSelection cfg members3) \<noteq> {}) \<and>
     fetchAllCrimes (crimesSource bad) = Some (offsets3, Inl err3)) \<and>
    runReports cfg later = Some (evsNext, out)"
  then consider (roster) "membersResponse bad = Inl err3"
    | (crimes) "membersResponse bad = Inr members3"
        "bothFlag cfg \<or> dom (passSelection cfg members3) \<noteq> {}"
        "fetchAllCrimes (crimesSource bad) = Some (offsets3, Inl err3)"
    by blast
  then obtain evsBad where bad: "runReports cfg bad = Some (evsBad, Returned)"
    and quiet: "filter isReportOutput evsBad = []"
  proof cases
    case roster
    then have "runReports cfg bad = Some ([FetchMembers, LogError ''fetch members'' err3], Returned)"
      by (rule runReports_roster_failure)
    then show ?thesis using that by simp
  next
    case crimes
    then have "runReports cfg bad =
        Some (FetchMembers # map FetchCrimes offsets3 @ [LogError ''fetch crimes'' err3], Returned)"
      using runReports_fetches [of bad members3 cfg] by simp
    moreover have "filter isReportOutput
        (FetchMembers # map FetchCrimes offsets3 @ [LogError ''fetch crimes'' err3]) = []"
      by (simp add: filter_empty_conv)
    ultimately show ?thesis using that by blast
  qed
  from a bad have "mainLoop cfg first ticks = Some (trs @ [evsBad, evsNext], out)"
    by (intro mainLoop_after_failure) blast+
  with bad quiet show "\<exists>evsBad.
           runReports cfg bad = Some (evsBad, Returned) \<and>
           filter isReportOutput evsBad = [] \<and>
           mainLoop cfg first ticks = Some (trs @ [evsBad, evsNext], out)"
    by blast
qed

lemma filter_isSinkCall_writeSheet:
  "filter isSinkCall (writeSheet env k sid rng rows clearMsg writeMsg infoMsg)
     = [ClearRange sid rng, UpdateRange sid rng rows]"
  by (simp add: writeSheet_def split: option.splits)

lemma filter_isSinkCall_fetches:
  "filter isSinkCall (FetchMembers # map FetchCrimes offsets @ evs) = filter isSinkCall evs"
  by (simp add: filter_empty_conv)

subsection \<open>Failures of the sink\<close>

text \<open>
  Claim C9. In a pass that writes to the sheet, whatever the clear and write calls return,
  the calls made to the sheets client are: in "both" mode the clear and the write of the
  not-in-OC range followed by the clear and the write of the all-members range; in single
  mode the clear and the write of the target range.
\<close>

theorem sink_failures_do_not_block:
  assumes "outputDest cfg \<noteq> ''stdout''" and "spreadsheetID env = Some sid"
    and "membersResponse env = Inr members"
    and "bothFlag cfg \<or> dom (passSelection cfg members) \<noteq> {}"
    and "fetchAllCrimes (crimesSource env) = Some (offsets, Inr crimes)"
  shows "\<exists>evs. runReports cfg env = Some (evs, Returned) \<and>
           filter isSinkCall evs =
             (if bothFlag cfg
              then [ClearRange sid (nocRange cfg),
                    UpdateRange sid (nocRange cfg)
                      (buildSheetRows (render1 env) (selectNoOC members) (reduceAll crimes)),
                    ClearRange sid (allRange cfg),
                    UpdateRange sid (allRange cfg)
                      (buildSheetRows (render2 env) (selectAll members) (reduceAll crimes))]
              else [ClearRange sid (if allFlag cfg then allRange cfg else nocRange cfg),
                    UpdateRange sid (if allFlag cfg then allRange cfg else nocRange cfg)
                      (buildSheetRows (render1 env) (passSelection cfg members) (reduceAll crimes))])"
proof -
  let ?emit = "emitReports cfg env (passSelection cfg members) (selectAll members)
                 (selectNoOC members) (reduceAll crimes)"
  have run: "runReports cfg env = Some (FetchMembers # map FetchCrimes offsets @ fst ?emit, snd ?emit)"
    using runReports_fetches [OF assms(3,4)] assms(5) by (simp add: case_prod_beta)
  have out: "snd ?emit = Returned"
    using assms(1,2) by (simp add: emitReports_def Let_def)
  have calls: "filter isSinkCall (fst ?emit) =
             (if bothFlag cfg
              then [ClearRange sid (nocRange cfg),
                    UpdateRange sid (nocRange cfg)
                      (buildSheetRows (render1 env) (selectNoOC members) (reduceAll crimes)),
                    ClearRange sid (allRange cfg),
                    UpdateRange sid (allRange cfg)
                      (buildSheetRows (render2 env) (selectAll members) (reduceAll crimes))]
              else [ClearRange sid (if allFlag cfg then allRange cfg else nocRange cfg),
                    UpdateRange sid (if allFlag cfg then allRange cfg else nocRange cfg)
                      (buildSheetRows (render1 env) (passSelection cfg members) (reduceAll crimes))])"
    using assms(1,2) by (simp add: emitReports_def Let_def filter_isSinkCall_writeSheet)
  from run out calls show ?thesis
    by (simp add: filter_isSinkCall_fetches del: filter.simps filter_append)
qed

lemma fetch_one_short_page:
  "length page < 100 \<Longrightarrow> fetchAllCrimes (pagedSource [page]) = Some ([0], Inr page)"
  by (simp add: fetchAllCrimes_def fetchLoop.simps pagedSource_def pageSize_def Let_def)

lemma fetch_no_page: "fetchAllCrimes (pagedSource []) = Some ([0], Inl TransportError)"
  by (simp add: fetchAllCrimes_def fetchLoop.simps pagedSource_def)

lemmas pass_defs = runReports_def emitReports_def writeSheet_def printReport_def buildSheetRows_def
  passSelection_def exampleConfig_def exampleEnv_def mainLoop_def fetch_one_short_page fetch_no_page

subsection \<open>Concrete passes\<close>

text \<open>
  C7 on a roster whose only member is in an OC: the single-mode pass stops after the
  message, the "both" pass requests the history and prints two reports.
\<close>

theorem empty_selection_short_circuit_witness:
  "dom (selectNoOC inOCRoster) = {} \<and>
   runReports (exampleConfig ''stdout'' False False 0)
     (exampleEnv (Inr inOCRoster) (pagedSource [Nil]) [] [2]) =
     Some ([FetchMembers, Println ''No matching faction members found.''], Returned) \<and>
   fetchAllCrimes (pagedSource [Nil]) = Some ([0], Inr []) \<and>
   runReports (exampleConfig ''stdout'' False True 0)
     (exampleEnv (Inr inOCRoster) (pagedSource [Nil]) [] [2]) =
     Some ([FetchMembers, FetchCrimes 0,
            Println ''=== Members not in OC ==='',
            Println ''Report generated at: 2025-06-01T12:00:00Z'',
            Println (CHR 0x0A # ''=== All Members ===''),
            Println ''Report generated at: 2025-06-01T12:00:00Z'',
            Println '''',
            Println ''Member: Bob (2) - Last seen: Online (2 minutes ago)'',
            Println ''  No historical OC participation recorded.''], Returned)"
  using empty_selection_short_circuit [where cfg = "exampleConfig ''stdout'' False False 0"
      and env = "exampleEnv (Inr inOCRoster) (pagedSource [Nil]) [] [2]"
      and members = inOCRoster
      and ?cfg2.0 = "exampleConfig ''stdout'' False True 0"
      and ?env2.0 = "exampleEnv (Inr inOCRoster) (pagedSource [Nil]) [] [2]"
      and ?members2.0 = inOCRoster and offsets = "[0]" and res = "Inr []"]
  by (simp add: pass_defs eval_defs inOCRoster_def)

text \<open>
  C9 on a sink whose clear calls all fail and whose first write fails: the four calls are
  made all the same.
\<close>

theorem sink_failures_do_not_block_witness:
  "clearResult (exampleEnv (Inr exRoster) (pagedSource [ [exA] ]) [3, 1] [2, 1, 3]) 0
     = Some (SinkError ''clear failed'') \<and>
   updateResult (exampleEnv (Inr exRoster) (pagedSource [ [exA] ]) [3, 1] [2, 1, 3]) 0
     = Some (SinkError ''write failed'') \<and>
   runReports (exampleConfig ''sheets'' False True 0)
     (exampleEnv (Inr exRoster) (pagedSource [ [exA] ]) [3, 1] [2, 1, 3]) =
     Some ([FetchMembers, FetchCrimes 0,
            ClearRange ''sheet-1'' ''History!A1'',
            LogError ''clear not-in-OC sheet'' (SinkError ''clear failed''),
            UpdateRange ''sheet-1'' ''History!A1''
              (buildSheetRows (exampleRuntime [3, 1]) (selectNoOC exRoster) (reduceAll [exA])),
            LogError ''write not-in-OC sheet'' (SinkError ''write failed''),
            ClearRange ''sheet-1'' ''HistoryAll!A1'',
            LogError ''clear ALL sheet'' (SinkError ''clear failed''),
            UpdateRange ''sheet-1'' ''HistoryAll!A1''
              (buildSheetRows (exampleRuntime [2, 1, 3]) (selectAll exRoster) (reduceAll [exA])),
            LogInfo ''Wrote ALL report to Google Sheet'' 10], Returned)"
proof -
  let ?cfg = "exampleConfig ''sheets'' False True 0"
  let ?env = "exampleEnv (Inr exRoster) (pagedSource [ [exA] ]) [3, 1] [2, 1, 3]"
  have h1: "outputDest ?cfg \<noteq> ''stdout''" by (simp add: exampleConfig_def)
  have h2: "spreadsheetID ?env = Some ''sheet-1''" by (simp add: exampleEnv_def)
  have h3: "membersResponse ?env = Inr exRoster" by (simp add: exampleEnv_def)
  have h4: "bothFlag ?cfg \<or> dom (passSelection ?cfg exRoster) \<noteq> {}"
    by (simp add: exampleConfig_def)
  have h5: "fetchAllCrimes (crimesSource ?env) = Some ([0], Inr [exA])"
    by (simp add: exampleEnv_def fetch_one_short_page)
  from sink_failures_do_not_block [OF h1 h2 h3 h4 h5] show ?thesis
    by (simp add: pass_defs eval_defs)
qed

text \<open>
  C8 on a loop of three passes, the second of which cannot reach the roster: the third
  pass prints its report.
\<close>

theorem fetch_failure_aborts_pass_only_witness:
  "runReports (exampleConfig ''stdout'' False False 300)
     (exampleEnv (Inl TransportError) (pagedSource [Nil]) [1] []) =
     Some ([FetchMembers, LogError ''fetch members'' TransportError], Returned) \<and>
   fetchAllCrimes (pagedSource []) = Some ([0], Inl TransportError) \<and>
   runReports (exampleConfig ''stdout'' False False 300)
     (exampleEnv (Inr aliceRoster) (pagedSource []) [1] []) =
     Some ([FetchMembers, FetchCrimes 0, LogError ''fetch crimes'' TransportError], Returned) \<and>
   0 < interval (exampleConfig ''stdout'' False False 300) \<and>
   mainLoop (exampleConfig ''stdout'' False False 300)
     (exampleEnv (Inr aliceRoster) (pagedSource [Nil]) [1] [])
     [exampleEnv (Inl TransportError) (pagedSource [Nil]) [1] [],
      exampleEnv (Inr aliceRoster) (pagedSource [Nil]) [1] []] =
     Some ([ [FetchMembers, FetchCrimes 0,
             Println ''Report generated at: 2025-06-01T12:00:00Z'',
             Println '''',
             Println ''Member: alice (1) - Last seen: Online (2 minutes ago)'',
             Println ''  No historical OC participation recorded.''],
            [FetchMembers, LogError ''fetch members'' TransportError],
            [FetchMembers, FetchCrimes 0,
             Println ''Report generated at: 2025-06-01T12:00:00Z'',
             Println '''',
             Println ''Member: alice (1) - Last seen: Online (2 minutes ago)'',
             Println ''  No historical OC participation recorded.'']], Returned)"
proof -
  let ?cfg = "exampleConfig ''stdout'' False False 300"
  let ?good = "exampleEnv (Inr aliceRoster) (pagedSource [Nil]) [1] []"
  let ?bad = "exampleEnv (Inl TransportError) (pagedSource [Nil]) [1] []"
  let ?report = "[FetchMembers, FetchCrimes 0,
             Println ''Report generated at: 2025-06-01T12:00:00Z'',
             Println '''',
             Println ''Member: alice (1) - Last seen: Online (2 minutes ago)'',
             Println ''  No historical OC participation recorded.'']"
  have good: "runReports ?cfg ?good = Some (?report, Returned)"
    by (simp add: pass_defs eval_defs aliceRoster_def)
  then have before: "runPasses ?cfg [?good] = Some ([?report], Returned)"
    by simp
  show ?thesis
    using fetch_failure_aborts_pass_only [where env = ?bad and err = TransportError
        and cfg = ?cfg and ?env2.0 = "exampleEnv (Inr aliceRoster) (pagedSource []) [1] []"
        and members = aliceRoster and offsets = "[0]" and ?err2.0 = TransportError
        and first = ?good and ticks = "[?bad, ?good]" and before = "[?good]" and bad = ?bad
        and later = ?good and trs = "[?report]" and ?err3.0 = TransportError
        and ?members3.0 = aliceRoster and ?offsets3.0 = "[0]"
        and evsNext = ?report and out = Returned]
      good before
    by (simp add: pass_defs eval_defs aliceRoster_def)
qed

end
